theory Spec2Isabelle
  imports Complex_Main "HOL-Library.Multiset"
begin

section \<open>Python primitives used by the ranking code\<close>

text \<open>
  The sources are Python. Scores and similarities are Python floats; they are modelled by
  \<^typ>\<open>real\<close>, so products and comparisons are the exact ones. Integers are unbounded
  (\<^typ>\<open>int\<close>); list indices and slice bounds may be negative and follow Python's rules.
  Exceptions are values of type \<open>exn\<close>. \<open>Logger.error(text)\<close> raises \<open>RuntimeError(text)\<close>
  (every class of the repository builds its logger with \<open>raise_errors = True\<close>); the
  argument kept here is the fixed part of the message, before the text of the exception that
  was caught. \<open>TypeCheckError\<close> is the exception of the \<open>typechecked\<close> decorator.
\<close>

datatype exn = IndexError | ValueError | TypeCheckError | RuntimeError string

definition try_bind :: "exn + 'a \<Rightarrow> ('a \<Rightarrow> exn + 'b) \<Rightarrow> exn + 'b" where
  "try_bind m f = (case m of Inl e \<Rightarrow> Inl e | Inr x \<Rightarrow> f x)"

text \<open>A slice bound \<open>i\<close> on a sequence of length \<open>n\<close>: negative bounds count from the end,
  and every bound is clamped to \<open>0..n\<close>.\<close>

definition py_bound :: "nat \<Rightarrow> int \<Rightarrow> nat" where
  "py_bound n i = (if i < 0 then nat (int n + i) else min n (nat i))"

text \<open>\<open>xs[:i]\<close> and \<open>xs[i:]\<close>.\<close>

definition py_upto :: "'a list \<Rightarrow> int \<Rightarrow> 'a list" where
  "py_upto xs i = take (py_bound (length xs) i) xs"

definition py_from :: "'a list \<Rightarrow> int \<Rightarrow> 'a list" where
  "py_from xs i = drop (py_bound (length xs) i) xs"

text \<open>\<open>xs[i]\<close>: a negative index counts from the end; out of range raises \<open>IndexError\<close>.
  The same rule governs the integer indexing of a tensor.\<close>

definition py_index :: "'a list \<Rightarrow> int \<Rightarrow> exn + 'a" where
  "py_index xs i =
     (if 0 \<le> i \<and> i < int (length xs) then Inr (xs ! nat i)
      else if i < 0 \<and> - int (length xs) \<le> i then Inr (xs ! nat (int (length xs) + i))
      else Inl IndexError)"

text \<open>\<open>range(a, b)\<close> and \<open>enumerate(xs, start)\<close>.\<close>

definition py_range :: "int \<Rightarrow> int \<Rightarrow> int list" where
  "py_range a b = map (\<lambda>k. a + int k) [0..<nat (b - a)]"

definition py_enumerate :: "'a list \<Rightarrow> int \<Rightarrow> (int \<times> 'a) list" where
  "py_enumerate xs start = zip (py_range start (start + int (length xs))) xs"

text \<open>\<open>xs.index(v)\<close>: the position of the first element equal to \<open>v\<close>, or \<open>ValueError\<close>.\<close>

fun py_list_index :: "'a list \<Rightarrow> 'a \<Rightarrow> exn + nat" where
  "py_list_index [] v = Inl ValueError"
| "py_list_index (x # xs) v =
     (if x = v then Inr 0
      else (case py_list_index xs v of Inl e \<Rightarrow> Inl e | Inr k \<Rightarrow> Inr (Suc k)))"

text \<open>\<open>sorted(xs, key = key, reverse = True)\<close>: descending by key, and stable (elements with
  equal keys keep their relative order, also with \<open>reverse = True\<close>). This is the stable
  ascending sort on the negated key.\<close>

definition sorted_desc :: "('a \<Rightarrow> real) \<Rightarrow> 'a list \<Rightarrow> 'a list" where
  "sorted_desc key xs = sort_key (\<lambda>x. - key x) xs"

section \<open>Ranker (src/evaluation/ranking.py)\<close>

text \<open>The dictionaries the ranker works on: a candidate \<open>{docno, score, from_query}\<close> and a
  ranked entry, which has the key \<open>rank\<close> in addition.\<close>

record doc =
  docno :: string
  score :: real
  from_query :: string

record ranked_doc = doc +
  rank :: int

text \<open>The three candidate lists held by a \<open>Ranker\<close> object.\<close>

record ranker =
  original_docs :: "doc list"
  translated_docs :: "doc list"
  expanded_docs :: "doc list"

subsection \<open>\<open>Ranker._normalize\<close>\<close>

definition max_score :: real where
  "max_score = 1"

definition min_score :: real where
  "min_score = 0"

text \<open>The body of the loop over the three lists: an empty list and a degenerate range are
  skipped, otherwise every score is rescaled in place.\<close>

definition normalize_list :: "doc list \<Rightarrow> doc list" where
  "normalize_list doc_list =
     (if doc_list = [] then doc_list
      else if max_score = min_score then doc_list
      else map (\<lambda>doc. doc\<lparr>score := (score doc - min_score) / (max_score - min_score)\<rparr>) doc_list)"

definition normalize :: "ranker \<Rightarrow> ranker" where
  "normalize st =
     st\<lparr>original_docs := normalize_list (original_docs st),
        translated_docs := normalize_list (translated_docs st),
        expanded_docs := normalize_list (expanded_docs st)\<rparr>"

subsection \<open>\<open>Ranker._remove_doubles\<close>\<close>

definition remove_doubles :: "ranker \<Rightarrow> ranker" where
  "remove_doubles st =
     (let original_docnos = set (map docno (original_docs st))
      in st\<lparr>translated_docs := filter (\<lambda>doc. docno doc \<notin> original_docnos) (translated_docs st),
            expanded_docs := filter (\<lambda>doc. docno doc \<notin> original_docnos) (expanded_docs st)\<rparr>)"

subsection \<open>\<open>Ranker._get_ranked_list\<close>\<close>

text \<open>\<open>sorted(docs, key = score, reverse = True)[:topn]\<close>.\<close>

definition top_docs :: "doc list \<Rightarrow> int \<Rightarrow> doc list" where
  "top_docs docs topn = py_upto (sorted_desc score docs) topn"

text \<open>The three remainders, concatenated. As in the source, the remainders are slices of the
  lists as stored (not of the sorted lists), and the second one is a slice of
  \<open>self.original_docs\<close>.\<close>

definition mixed_remaining_docs :: "ranker \<Rightarrow> int \<Rightarrow> doc list" where
  "mixed_remaining_docs st topn =
     py_from (original_docs st) topn @ py_from (original_docs st) topn
       @ py_from (expanded_docs st) topn"

definition final_ranked_list :: "ranker \<Rightarrow> int \<Rightarrow> doc list" where
  "final_ranked_list st topn =
     top_docs (original_docs st) topn @ top_docs (translated_docs st) topn
       @ top_docs (expanded_docs st) topn
       @ sorted_desc score (mixed_remaining_docs st topn)"

definition get_ranked_list :: "ranker \<Rightarrow> int \<Rightarrow> int \<Rightarrow> ranked_doc list" where
  "get_ranked_list st topn nmax =
     map (\<lambda>(rank, doc). \<lparr>docno = docno doc, score = score doc,
                          from_query = from_query doc, rank = rank + 1\<rparr>)
       (py_enumerate (py_upto (final_ranked_list st topn) nmax) 0)"

subsection \<open>\<open>Ranker.rank\<close>\<close>

text \<open>The method \<open>rank\<close>; the name \<open>rank\<close> itself is the field of a ranked entry here.\<close>

definition rank_docs :: "(string \<times> real) list \<Rightarrow> (string \<times> real) list \<Rightarrow> (string \<times> real) list
    \<Rightarrow> int \<Rightarrow> int \<Rightarrow> ranked_doc list" where
  "rank_docs original translated expanded topn nmax =
     (let st = \<lparr>original_docs =
                  map (\<lambda>d. \<lparr>docno = fst d, score = snd d, from_query = ''original''\<rparr>) original,
                translated_docs =
                  map (\<lambda>d. \<lparr>docno = fst d, score = snd d, from_query = ''translated''\<rparr>) translated,
                expanded_docs =
                  map (\<lambda>d. \<lparr>docno = fst d, score = snd d, from_query = ''expanded''\<rparr>) expanded\<rparr>
      in get_ranked_list (remove_doubles (normalize st)) topn nmax)"

subsection \<open>\<open>Ranker.rerank\<close>\<close>

text \<open>
  \<open>rerank\<close> receives a list of dictionary objects and assigns to their keys, so the entries
  are modelled as references into a store of ranked entries: what the caller sees of its own
  list after the call is read from the store the call returns.
\<close>

type_synonym ref = nat

type_synonym heap = "ref \<Rightarrow> ranked_doc"

text \<open>The feedback dictionary \<open>{'docno': ..., 'feedback': ...}\<close>.\<close>

record feedback =
  fb_docno :: string
  fb_feedback :: string

text \<open>\<open>next((doc['rank'] for doc in ranked_list if doc['docno'] == feedback['docno']), None)\<close>.\<close>

definition selected_doc_rank :: "heap \<Rightarrow> ref list \<Rightarrow> feedback \<Rightarrow> int option" where
  "selected_doc_rank h ranked_list fb =
     map_option (\<lambda>doc. rank (h doc)) (find (\<lambda>doc. docno (h doc) = fb_docno fb) ranked_list)"

text \<open>\<open>similarity_matrix[i, j].item()\<close> on a two-dimensional tensor, given by its rows.\<close>

definition tensor_item :: "real list list \<Rightarrow> int \<Rightarrow> int \<Rightarrow> exn + real" where
  "tensor_item m i j = try_bind (py_index m i) (\<lambda>row. py_index row j)"

text \<open>The negative branch: the value of the selected row at the position that the source
  computes as \<open>ordered_similarity[-similarity_position]\<close>.\<close>

definition inverse_sim_value :: "real list list \<Rightarrow> int \<Rightarrow> int \<Rightarrow> exn + real" where
  "inverse_sim_value similarity_matrix selected_doc_index doc_to_update =
     try_bind (py_index similarity_matrix selected_doc_index) (\<lambda>similarity_list.
     try_bind (py_index similarity_list doc_to_update) (\<lambda>similarity_value.
       let ordered_similarity = sorted_desc (\<lambda>x. x) similarity_list in
       try_bind (py_list_index ordered_similarity similarity_value) (\<lambda>similarity_position.
         py_index ordered_similarity (- int similarity_position))))"

text \<open>One iteration of the update loop; the result \<open>Inr None\<close> is the \<open>continue\<close> of the
  last branch.\<close>

definition new_score :: "feedback \<Rightarrow> real list list \<Rightarrow> int \<Rightarrow> int \<Rightarrow> real \<Rightarrow> exn + real option" where
  "new_score fb similarity_matrix selected_doc_index doc_to_update current_score =
     try_bind (tensor_item similarity_matrix selected_doc_index doc_to_update) (\<lambda>sim_value.
       if fb_feedback fb = ''+'' then Inr (Some (current_score * sim_value))
       else if fb_feedback fb = ''-'' then
         try_bind (inverse_sim_value similarity_matrix selected_doc_index doc_to_update)
           (\<lambda>v. Inr (Some (current_score * v)))
       else Inr None)"

definition rerank_step :: "heap \<Rightarrow> ref list \<Rightarrow> feedback \<Rightarrow> real list list \<Rightarrow> int \<Rightarrow> int \<Rightarrow> exn + heap" where
  "rerank_step h ranked_list fb similarity_matrix selected_doc_index doc_to_update =
     try_bind (py_index ranked_list doc_to_update) (\<lambda>current_doc.
     try_bind (new_score fb similarity_matrix selected_doc_index doc_to_update
                 (score (h current_doc))) (\<lambda>r.
       case r of
         None \<Rightarrow> Inr h
       | Some s \<Rightarrow> Inr (h(current_doc := (h current_doc)\<lparr>score := s\<rparr>))))"

text \<open>The loop \<open>for doc_to_update in range(selected_doc_index + 1, len(ranked_list) - 1)\<close>,
  over the list of its indices. An exception leaves the loop with the store as it is then.\<close>

fun rerank_loop :: "heap \<Rightarrow> ref list \<Rightarrow> feedback \<Rightarrow> real list list \<Rightarrow> int \<Rightarrow> int list
    \<Rightarrow> heap \<times> exn option" where
  "rerank_loop h ranked_list fb similarity_matrix selected_doc_index [] = (h, None)"
| "rerank_loop h ranked_list fb similarity_matrix selected_doc_index (doc_to_update # rest) =
     (case rerank_step h ranked_list fb similarity_matrix selected_doc_index doc_to_update of
        Inl e \<Rightarrow> (h, Some e)
      | Inr h' \<Rightarrow> rerank_loop h' ranked_list fb similarity_matrix selected_doc_index rest)"

text \<open>The last loop: \<open>doc['rank'] = rank\<close> for the enumerated pairs.\<close>

fun assign_ranks :: "heap \<Rightarrow> (int \<times> ref) list \<Rightarrow> heap" where
  "assign_ranks h [] = h"
| "assign_ranks h ((r, doc) # rest) = assign_ranks (h(doc := (h doc)\<lparr>rank := r\<rparr>)) rest"

text \<open>The whole method. It returns the store together with either the exception raised
  (every exception inside the \<open>try\<close> is reported through \<open>self.error\<close>, which raises) or the
  list returned. When the document of the feedback is not in the list, the list given is
  returned as it is.\<close>

definition rerank :: "heap \<Rightarrow> ref list \<Rightarrow> feedback \<Rightarrow> real list list \<Rightarrow> heap \<times> (exn + ref list)" where
  "rerank h ranked_list fb similarity_matrix =
     (case selected_doc_rank h ranked_list fb of
        None \<Rightarrow> (h, Inr ranked_list)
      | Some selected_rank \<Rightarrow>
          let selected_doc_index = selected_rank - 1 in
          (case rerank_loop h ranked_list fb similarity_matrix selected_doc_index
                  (py_range (selected_doc_index + 1) (int (length ranked_list) - 1)) of
             (h1, Some e) \<Rightarrow> (h1, Inl (RuntimeError ''Failed to get reranked list''))
           | (h1, None) \<Rightarrow>
               let reranked_part =
                     sorted_desc (\<lambda>doc. score (h1 doc))
                       (py_from ranked_list (selected_doc_index + 1));
                   new_list = py_upto ranked_list (selected_doc_index + 1) @ reranked_part;
                   h2 = assign_ranks h1
                          (py_enumerate (py_from new_list (selected_doc_index + 1))
                             (selected_doc_index + 2))
               in (h2, Inr new_list)))"

section \<open>Pipeline (src/pipeline.py) and ClinicalBERT (src/evaluation/embed.py)\<close>

text \<open>A document of the corpus (\<open>Pipeline.documents\<close>), with the two keys read here.\<close>

record document =
  document_docno :: string
  document_text :: string

record pipeline =
  documents :: "document list"
  original_top :: "(string \<times> real) list"
  translated_top :: "(string \<times> real) list"
  expanded_top :: "(string \<times> real) list"

text \<open>\<open>Pipeline.rerank\<close> collects the docnos of the ranked list in a Python \<open>set\<close> and hands
  \<open>list(ids)\<close> on. Its consumers only test membership, so the identifiers are kept as a set.\<close>

definition rerank_ids :: "heap \<Rightarrow> ref list \<Rightarrow> string set" where
  "rerank_ids h ranked_list = set (map (\<lambda>item. docno (h item)) ranked_list)"

text \<open>\<open>Pipeline._evaluate\<close>: without identifiers, those of the three top lists are taken.\<close>

definition evaluate_ids :: "pipeline \<Rightarrow> string set \<Rightarrow> string set" where
  "evaluate_ids p ids =
     (if ids = {} then
        fst ` (set (original_top p) \<union> set (translated_top p) \<union> set (expanded_top p))
      else ids)"

text \<open>\<open>ClinicalBERT.__call__\<close>: the texts to embed are those of the corpus documents whose
  docno is among the identifiers, in the order of the corpus; none at all is an error. Row
  and column \<open>k\<close> of the similarity matrix belong to the \<open>k\<close>-th of these documents.\<close>

definition cbert_documents :: "document list \<Rightarrow> string set \<Rightarrow> exn + document list" where
  "cbert_documents docs ids =
     (let documents_text = filter (\<lambda>document. document_docno document \<in> ids) docs
      in if documents_text = [] then
           Inl (RuntimeError ''No matching documents found for the provided IDs'')
         else Inr documents_text)"

text \<open>The docnos that index the rows of the matrix which \<open>Pipeline.rerank\<close> requests for a
  ranked list.\<close>

definition similarity_docnos :: "pipeline \<Rightarrow> heap \<Rightarrow> ref list \<Rightarrow> exn + string list" where
  "similarity_docnos p h ranked_list =
     try_bind (cbert_documents (documents p) (evaluate_ids p (rerank_ids h ranked_list)))
       (\<lambda>ds. Inr (map document_docno ds))"

text \<open>\<open>Pipeline.rerank\<close>. The embedding model is a parameter: from the texts it is given, it
  returns the matrix of their pairwise similarities or fails.\<close>

definition pipeline_rerank :: "(string list \<Rightarrow> exn + real list list) \<Rightarrow> pipeline \<Rightarrow> heap \<Rightarrow> ref list
    \<Rightarrow> feedback \<Rightarrow> heap \<times> (exn + ref list)" where
  "pipeline_rerank similarity p h ranked_list fb =
     (case try_bind (cbert_documents (documents p) (evaluate_ids p (rerank_ids h ranked_list)))
             (\<lambda>ds. similarity (map document_text ds)) of
        Inl e \<Rightarrow> (h, Inl e)
      | Inr similarity_matrix \<Rightarrow> rerank h ranked_list fb similarity_matrix)"

section \<open>Session history (src/gui.py)\<close>

text \<open>A state of the history, \<open>{'query', 'results', 'feedback'}\<close>; the empty feedback
  dictionary of a search is \<open>None\<close>.\<close>

record search_state =
  query :: string
  results :: "ref list"
  feedback :: "feedback option"

text \<open>The GUI object: the state of everything behind the pipeline (of a type left open,
  it includes the store of the entries) and the history.\<close>

record 'w gui =
  backend :: 'w
  search_history :: "search_state list"

text \<open>\<open>str.strip()\<close>, on strings of code points below 256.\<close>

definition py_isspace :: "char \<Rightarrow> bool" where
  "py_isspace c = ((of_char c :: nat) \<in> {9, 10, 11, 12, 13, 28, 29, 30, 31, 32, 133, 160})"

definition py_strip :: "string \<Rightarrow> string" where
  "py_strip s = rev (dropWhile py_isspace (rev (dropWhile py_isspace s)))"

text \<open>\<open>GUI._rank\<close>. The parameters stand for \<open>pipeline.indexer.load()\<close> and for the calls
  inside the \<open>try\<close> (the retrievals and \<open>pipeline.rank()\<close>).\<close>

definition gui_rank :: "('w \<Rightarrow> 'w \<times> exn option) \<Rightarrow> ('w \<Rightarrow> string \<Rightarrow> 'w \<times> (exn + ref list))
    \<Rightarrow> 'w gui \<Rightarrow> string \<Rightarrow> 'w gui \<times> exn option" where
  "gui_rank indexer_load retrieve_and_rank g q =
     (case indexer_load (backend g) of
        (w1, Some e) \<Rightarrow> (g\<lparr>backend := w1\<rparr>, Some e)
      | (w1, None) \<Rightarrow>
          (case retrieve_and_rank w1 q of
             (w2, Inl e) \<Rightarrow> (g\<lparr>backend := w2\<rparr>, Some (RuntimeError ''Error during initial search''))
           | (w2, Inr ranked_list) \<Rightarrow>
               (g\<lparr>backend := w2,
                  search_history := search_history g
                    @ [\<lparr>query = q, results = ranked_list, feedback = None\<rparr>]\<rparr>, None)))"

text \<open>\<open>GUI._rerank\<close>. \<open>self.search_history[-1]\<close> stands before the \<open>try\<close>. The parameter is
  \<open>Pipeline.rerank\<close>.\<close>

definition gui_rerank :: "('w \<Rightarrow> ref list \<Rightarrow> feedback \<Rightarrow> 'w \<times> (exn + ref list))
    \<Rightarrow> 'w gui \<Rightarrow> feedback \<Rightarrow> 'w gui \<times> exn option" where
  "gui_rerank p_rerank g fb =
     (if search_history g = [] then (g, Some IndexError)
      else
        let last_state = last (search_history g) in
        (case p_rerank (backend g) (results last_state) fb of
           (w, Inl e) \<Rightarrow> (g\<lparr>backend := w\<rparr>, Some (RuntimeError ''Error during reranking''))
         | (w, Inr reranked_list) \<Rightarrow>
             (g\<lparr>backend := w,
                search_history := search_history g
                  @ [\<lparr>query = query last_state, results = reranked_list,
                      feedback = Some fb\<rparr>]\<rparr>, None)))"

text \<open>\<open>GUI.search\<close>. The value returned is the list handed to \<open>_search\<close>, which only reads.
  For an empty query the method returns a dictionary where a list is declared.\<close>

definition search :: "('w \<Rightarrow> 'w \<times> exn option) \<Rightarrow> ('w \<Rightarrow> string \<Rightarrow> 'w \<times> (exn + ref list))
    \<Rightarrow> 'w gui \<Rightarrow> string \<Rightarrow> bool \<Rightarrow> 'w gui \<times> (exn + ref list)" where
  "search indexer_load retrieve_and_rank g q reset =
     (let q' = py_strip q in
      if q' = [] then (g, Inl TypeCheckError)
      else
        (case (if reset then gui_rank indexer_load retrieve_and_rank (g\<lparr>search_history := []\<rparr>) q'
               else (g, None)) of
           (g', Some e) \<Rightarrow> (g', Inl e)
         | (g', None) \<Rightarrow>
             (g', Inr (if search_history g' = [] then []
                       else results (last (search_history g'))))))"

text \<open>The condition of the loop in \<open>GUI._feedback\<close>:
  \<open>val['feedback'] and val['feedback']['docno'] == record['docno']\<close>.\<close>

definition targets :: "string \<Rightarrow> search_state \<Rightarrow> bool" where
  "targets d val = (case feedback val of None \<Rightarrow> False | Some f \<Rightarrow> fb_docno f = d)"

text \<open>The loop with its \<open>break\<close>: the index of the first state that satisfies the condition.\<close>

fun truncate_index :: "string \<Rightarrow> search_state list \<Rightarrow> nat option" where
  "truncate_index d [] = None"
| "truncate_index d (val # rest) =
     (if targets d val then Some 0 else map_option Suc (truncate_index d rest))"

text \<open>\<open>GUI._feedback\<close>, for the docno of the record and the value of the toggle.\<close>

definition gui_feedback :: "('w \<Rightarrow> ref list \<Rightarrow> feedback \<Rightarrow> 'w \<times> (exn + ref list))
    \<Rightarrow> 'w gui \<Rightarrow> string \<Rightarrow> int option \<Rightarrow> 'w gui \<times> exn option" where
  "gui_feedback p_rerank g d feedback_value =
     (let g1 = (case truncate_index d (search_history g) of
                  None \<Rightarrow> g
                | Some i \<Rightarrow> g\<lparr>search_history := take i (search_history g)\<rparr>)
      in if feedback_value = Some 1 \<or> feedback_value = Some 2 then
           gui_rerank p_rerank g1
             \<lparr>fb_docno = d, fb_feedback = (if feedback_value = Some 1 then ''-'' else ''+'')\<rparr>
         else (g1, None))"

section \<open>Concrete inputs\<close>

text \<open>The candidate lists of the fusion scenario: original \<open>[("A", 0.9), ("B", 0.5)]\<close>,
  translated \<open>[("C", 0.8)]\<close>, nothing expanded.\<close>

definition scenario_A :: ranker where
  "scenario_A =
     \<lparr>original_docs = [\<lparr>docno = ''A'', score = 9 / 10, from_query = ''original''\<rparr>,
                       \<lparr>docno = ''B'', score = 1 / 2, from_query = ''original''\<rparr>],
      translated_docs = [\<lparr>docno = ''C'', score = 4 / 5, from_query = ''translated''\<rparr>],
      expanded_docs = []\<rparr>"

text \<open>The ranked list of the rerank scenarios, \<open>[A, B, C]\<close> with scores \<open>[1.0, 0.6, 0.4]\<close>:
  three entries in the store, referred to by the list \<open>[0, 1, 2]\<close>. The row of \<open>A\<close> in the
  similarity matrix is \<open>[1.0, 0.5, 0.9]\<close>.\<close>

definition scenario_heap :: heap where
  "scenario_heap =
     (\<lambda>_. \<lparr>docno = [], score = 0, from_query = [], rank = 0\<rparr>)
       (0 := \<lparr>docno = ''A'', score = 1, from_query = ''original'', rank = 1\<rparr>,
        1 := \<lparr>docno = ''B'', score = 6 / 10, from_query = ''original'', rank = 2\<rparr>,
        2 := \<lparr>docno = ''C'', score = 4 / 10, from_query = ''original'', rank = 3\<rparr>)"

definition scenario_list :: "ref list" where
  "scenario_list = [0, 1, 2]"

definition scenario_sim :: "real list list" where
  "scenario_sim = [[1, 1 / 2, 9 / 10], [1 / 2, 1, 7 / 10], [9 / 10, 7 / 10, 1]]"

definition positive_A :: feedback where
  "positive_A = \<lparr>fb_docno = ''A'', fb_feedback = ''+''\<rparr>"

definition negative_A :: feedback where
  "negative_A = \<lparr>fb_docno = ''A'', fb_feedback = ''-''\<rparr>"

text \<open>A corpus that holds the three documents in the order \<open>A, B, C\<close>, and a history of a
  search followed by positive feedback on \<open>A\<close>.\<close>

definition scenario_pipeline :: pipeline where
  "scenario_pipeline =
     \<lparr>documents = [\<lparr>document_docno = ''A'', document_text = ''first''\<rparr>,
                   \<lparr>document_docno = ''B'', document_text = ''second''\<rparr>,
                   \<lparr>document_docno = ''C'', document_text = ''third''\<rparr>],
      original_top = [], translated_top = [], expanded_top = []\<rparr>"

definition scenario_history :: "search_state list" where
  "scenario_history =
     [\<lparr>query = ''flu'', results = [0, 1, 2], feedback = None\<rparr>,
      \<lparr>query = ''flu'', results = [0, 2, 1], feedback = Some positive_A\<rparr>]"

text \<open>A ranked list \<open>[A, B, C, D]\<close> of four entries with ranks \<open>1..4\<close>, a symmetric
  similarity matrix for it, and the feedback events of a session on it.\<close>

definition revision_heap :: heap where
  "revision_heap =
     (\<lambda>_. \<lparr>docno = [], score = 0, from_query = [], rank = 0\<rparr>)
       (0 := \<lparr>docno = ''A'', score = 1, from_query = ''original'', rank = 1\<rparr>,
        1 := \<lparr>docno = ''B'', score = 1 / 2, from_query = ''original'', rank = 2\<rparr>,
        2 := \<lparr>docno = ''C'', score = 1 / 4, from_query = ''original'', rank = 3\<rparr>,
        3 := \<lparr>docno = ''D'', score = 1 / 5, from_query = ''original'', rank = 4\<rparr>)"

definition revision_list :: "ref list" where
  "revision_list = [0, 1, 2, 3]"

definition revision_sim :: "real list list" where
  "revision_sim =
     [[1, 1 / 10, 1 / 10, 1 / 2],
      [1 / 10, 1, 1 / 10, 3 / 10],
      [1 / 10, 1 / 10, 1, 1 / 5],
      [1 / 2, 3 / 10, 1 / 5, 1]]"

definition positive_D :: feedback where
  "positive_D = \<lparr>fb_docno = ''D'', fb_feedback = ''+''\<rparr>"

definition negative_D :: feedback where
  "negative_D = \<lparr>fb_docno = ''D'', fb_feedback = ''-''\<rparr>"

section \<open>Normalization\<close>

lemma normalize_list_id: "normalize_list doc_list = doc_list"
  by (simp add: normalize_list_def max_score_def min_score_def map_idI)

text \<open>
  C10. Under the shipped bounds (\<open>max_score = 1\<close>, \<open>min_score = 0\<close>) \<open>_normalize\<close> changes no
  score: the ranker's three lists after the call are the lists before it.
\<close>

theorem normalize_is_identity: "normalize st = st"
  by (simp add: normalize_def normalize_list_id)


section \<open>Python primitives\<close>

lemma py_range_rec: "py_range a b = (if a < b then a # py_range (a + 1) b else [])"
proof (cases "a < b")
  case True
  then have "nat (b - a) = Suc (nat (b - (a + 1)))" by simp
  then show ?thesis using True
    by (simp add: py_range_def upt_conv_Cons map_Suc_upt [symmetric] o_def add.assoc
        del: upt_Suc)
next
  case False
  then show ?thesis by (simp add: py_range_def)
qed

lemma py_enumerate_Nil [simp]: "py_enumerate [] s = []"
  by (simp add: py_enumerate_def)

lemma py_enumerate_Cons [simp]: "py_enumerate (x # xs) s = (s, x) # py_enumerate xs (s + 1)"
  by (subst py_enumerate_def, subst py_range_rec) (simp add: py_enumerate_def algebra_simps)

lemma length_py_range [simp]: "length (py_range a b) = nat (b - a)"
  by (simp add: py_range_def)

lemma length_py_enumerate [simp]: "length (py_enumerate xs s) = length xs"
  by (simp add: py_enumerate_def)

lemma py_enumerate_nth: "k < length xs \<Longrightarrow> py_enumerate xs s ! k = (s + int k, xs ! k)"
  by (simp add: py_enumerate_def py_range_def)

lemma py_upto_nonneg: "0 \<le> i \<Longrightarrow> py_upto xs i = take (nat i) xs"
  by (simp add: py_upto_def py_bound_def min_def)

lemma py_from_nonneg: "0 \<le> i \<Longrightarrow> py_from xs i = drop (nat i) xs"
  by (simp add: py_from_def py_bound_def min_def)

lemma length_py_upto: "length (py_upto xs i) = py_bound (length xs) i"
  by (simp add: py_upto_def py_bound_def)

lemma length_sorted_desc [simp]: "length (sorted_desc key xs) = length xs"
  by (simp add: sorted_desc_def)

lemma set_sorted_desc [simp]: "set (sorted_desc key xs) = set xs"
  by (simp add: sorted_desc_def)

lemma mset_sorted_desc [simp]: "mset (sorted_desc key xs) = mset xs"
  by (simp add: sorted_desc_def)

lemma distinct_sorted_desc [simp]: "distinct (sorted_desc key xs) = distinct xs"
  by (simp add: sorted_desc_def)

lemma sorted_desc_descending: "sorted_wrt (\<lambda>x y. key y \<le> key x) (sorted_desc key xs)"
proof -
  have "sorted (map (\<lambda>x. - key x) (sorted_desc key xs))"
    by (simp add: sorted_desc_def)
  then show ?thesis
    by (simp add: sorted_map)
qed

lemma nth_append_second:
  assumes "\<not> k < length xs" and "k < length xs + length ys"
  shows "(xs @ ys @ r) ! k = ys ! (k - length xs)"
proof -
  from assms have "k - length xs < length ys" by arith
  with assms show ?thesis by (simp add: nth_append)
qed

lemma nth_append_third:
  assumes "\<not> k < length xs + length ys" and "k < length xs + length ys + length zs"
  shows "(xs @ ys @ zs @ r) ! k = zs ! (k - length xs - length ys)"
proof -
  from assms have "\<not> k < length xs" "\<not> k - length xs < length ys"
    "k - length xs - length ys < length zs" by arith+
  then show ?thesis by (simp add: nth_append)
qed

lemma sorted_desc_stable:
  "filter (\<lambda>x. key x = k) (sorted_desc key xs) = filter (\<lambda>x. key x = k) xs"
proof -
  have "filter (\<lambda>x. - key x = - k) (sort_key (\<lambda>x. - key x) xs) = filter (\<lambda>x. - key x = - k) xs"
    by (rule sort_key_stable)
  then show ?thesis by (simp add: sorted_desc_def)
qed

section \<open>Fusion: the quota\<close>

lemma length_get_ranked_list:
  "length (get_ranked_list st topn nmax) = py_bound (length (final_ranked_list st topn)) nmax"
  by (simp add: get_ranked_list_def length_py_upto)

lemma get_ranked_list_nth:
  assumes "k < length (get_ranked_list st topn nmax)"
  shows "get_ranked_list st topn nmax ! k =
    \<lparr>docno = docno (final_ranked_list st topn ! k), score = score (final_ranked_list st topn ! k),
     from_query = from_query (final_ranked_list st topn ! k), rank = int k + 1\<rparr>"
proof -
  from assms have k: "k < length (py_upto (final_ranked_list st topn) nmax)"
    by (simp add: get_ranked_list_def)
  then have "py_upto (final_ranked_list st topn) nmax ! k = final_ranked_list st topn ! k"
    by (simp add: py_upto_def)
  with k show ?thesis
    by (simp add: get_ranked_list_def py_enumerate_nth)
qed

lemma top_docs_nonneg:
  "0 \<le> topn \<Longrightarrow> top_docs docs topn = take (nat topn) (sorted_desc score docs)"
  by (simp add: top_docs_def py_upto_nonneg)

text \<open>
  C5. Fusion quota. With \<open>topn \<ge> 0\<close>, let \<open>a\<close>, \<open>b\<close>, \<open>c\<close> be \<open>topn\<close> capped by the lengths
  of the original, translated and expanded lists. Every position \<open>k\<close> of the output below
  \<open>a + b + c\<close> holds, with rank \<open>k + 1\<close>, the \<open>k\<close>-th entry of the original list sorted by score
  descending (stable) when \<open>k < a\<close>, then the entries of the translated list so sorted, then
  those of the expanded list. Positions that \<open>nmax\<close> cuts off are not positions of the
  output.
\<close>

theorem fusion_quota:
  assumes "0 \<le> topn" and "k < length (get_ranked_list st topn nmax)"
  shows "rank (get_ranked_list st topn nmax ! k) = int k + 1 \<and>
    (let a = min (nat topn) (length (original_docs st));
         b = min (nat topn) (length (translated_docs st));
         c = min (nat topn) (length (expanded_docs st));
         d = (if k < a then sorted_desc score (original_docs st) ! k
              else if k < a + b then sorted_desc score (translated_docs st) ! (k - a)
              else sorted_desc score (expanded_docs st) ! (k - a - b))
     in k < a + b + c \<longrightarrow>
        docno (get_ranked_list st topn nmax ! k) = docno d \<and>
        score (get_ranked_list st topn nmax ! k) = score d \<and>
        from_query (get_ranked_list st topn nmax ! k) = from_query d)"
proof -
  let ?so = "sorted_desc score (original_docs st)"
  let ?st = "sorted_desc score (translated_docs st)"
  let ?se = "sorted_desc score (expanded_docs st)"
  let ?a = "min (nat topn) (length (original_docs st))"
  let ?b = "min (nat topn) (length (translated_docs st))"
  let ?c = "min (nat topn) (length (expanded_docs st))"
  let ?F = "final_ranked_list st topn"
  have F: "?F = take (nat topn) ?so @ take (nat topn) ?st @ take (nat topn) ?se
      @ sorted_desc score (mixed_remaining_docs st topn)"
    using assms(1) by (simp add: final_ranked_list_def top_docs_nonneg)
  have la: "length (take (nat topn) ?so) = ?a" and lb: "length (take (nat topn) ?st) = ?b"
    and lc: "length (take (nat topn) ?se) = ?c"
    by (simp_all add: min.commute)
  have F1: "k < ?a \<Longrightarrow> ?F ! k = ?so ! k"
    by (simp add: F nth_append)
  have F2: "?F ! k = ?st ! (k - ?a)" if "\<not> k < ?a" "k < ?a + ?b"
  proof -
    have "?F ! k = take (nat topn) ?st ! (k - length (take (nat topn) ?so))"
      unfolding F by (rule nth_append_second) (use that in \<open>simp_all add: min.commute\<close>)
    also have "\<dots> = ?st ! (k - ?a)"
      unfolding la using that by (intro nth_take) arith
    finally show ?thesis .
  qed
  have F3: "?F ! k = ?se ! (k - ?a - ?b)" if "\<not> k < ?a + ?b" "k < ?a + ?b + ?c"
  proof -
    have "?F ! k = take (nat topn) ?se
        ! (k - length (take (nat topn) ?so) - length (take (nat topn) ?st))"
      unfolding F by (rule nth_append_third) (use that in \<open>simp_all add: min.commute\<close>)
    also have "\<dots> = ?se ! (k - ?a - ?b)"
      unfolding la lb using that by (intro nth_take) arith
    finally show ?thesis .
  qed
  have d: "docno (get_ranked_list st topn nmax ! k) = docno (?F ! k)"
    "score (get_ranked_list st topn nmax ! k) = score (?F ! k)"
    "from_query (get_ranked_list st topn nmax ! k) = from_query (?F ! k)"
    "rank (get_ranked_list st topn nmax ! k) = int k + 1"
    by (simp_all add: get_ranked_list_nth [OF assms(2)])
  consider "k < ?a" | "\<not> k < ?a" "k < ?a + ?b" | "\<not> k < ?a" "\<not> k < ?a + ?b"
    by blast
  then show ?thesis
  proof cases
    case 1
    then have eq: "?F ! k = ?so ! k" by (rule F1)
    show ?thesis unfolding d Let_def by (simp only: 1 eq if_True simp_thms)
  next
    case 2
    then have eq: "?F ! k = ?st ! (k - ?a)" by (rule F2)
    show ?thesis unfolding d Let_def by (simp only: 2 eq if_True if_False simp_thms)
  next
    case 3
    show ?thesis unfolding d Let_def
    proof (intro conjI impI)
      assume "k < ?a + ?b + ?c"
      with 3(2) have eq: "?F ! k = ?se ! (k - ?a - ?b)" by (rule F3)
      show "docno (?F ! k) = docno (if k < ?a then ?so ! k else if k < ?a + ?b
          then ?st ! (k - ?a) else ?se ! (k - ?a - ?b))"
        "score (?F ! k) = score (if k < ?a then ?so ! k else if k < ?a + ?b
          then ?st ! (k - ?a) else ?se ! (k - ?a - ?b))"
        "from_query (?F ! k) = from_query (if k < ?a then ?so ! k else if k < ?a + ?b
          then ?st ! (k - ?a) else ?se ! (k - ?a - ?b))"
        by (simp_all only: 3 eq if_False)
    qed simp
  qed
qed


theorem fusion_quota_witness:
  "(0::int) \<le> 1 \<and> 1 < length (get_ranked_list scenario_A 1 3) \<and>
   rank (get_ranked_list scenario_A 1 3 ! 1) = 2 \<and>
   docno (get_ranked_list scenario_A 1 3 ! 1) = ''C'' \<and>
   score (get_ranked_list scenario_A 1 3 ! 1) = 4 / 5 \<and>
   from_query (get_ranked_list scenario_A 1 3 ! 1) = ''translated''"
proof -
  have len: "length (get_ranked_list scenario_A 1 3) = 3"
    by (simp add: length_get_ranked_list final_ranked_list_def mixed_remaining_docs_def
        top_docs_def py_upto_def py_from_def py_bound_def scenario_A_def)
  have so: "sorted_desc score (translated_docs scenario_A) ! 0
      = \<lparr>docno = ''C'', score = 4 / 5, from_query = ''translated''\<rparr>"
    by (simp add: scenario_A_def sorted_desc_def)
  have k: "(1::nat) < length (get_ranked_list scenario_A 1 3)"
    by (simp add: len)
  show ?thesis
    using fusion_quota [of 1 1 scenario_A 3] k so
    by (simp add: Let_def scenario_A_def)
qed

section \<open>Fusion: cardinality and configuration\<close>

lemma get_ranked_list_ranks:
  "map rank (get_ranked_list st topn nmax)
     = map int [1..<Suc (length (get_ranked_list st topn nmax))]"
proof (rule nth_equalityI)
  show "length (map rank (get_ranked_list st topn nmax))
      = length (map int [1..<Suc (length (get_ranked_list st topn nmax))])"
    by (simp del: upt_Suc)
next
  fix k assume "k < length (map rank (get_ranked_list st topn nmax))"
  then have k: "k < length (get_ranked_list st topn nmax)" by simp
  then have "rank (get_ranked_list st topn nmax ! k) = int k + 1"
    by (simp add: get_ranked_list_nth)
  moreover have "[1..<Suc (length (get_ranked_list st topn nmax))] ! k = 1 + k"
    using k by (intro nth_upt) simp
  ultimately show "map rank (get_ranked_list st topn nmax) ! k
      = map int [1..<Suc (length (get_ranked_list st topn nmax))] ! k"
    using k by (simp del: upt_Suc)
qed

lemmas fusion_defs = get_ranked_list_def final_ranked_list_def mixed_remaining_docs_def
  top_docs_def py_upto_def py_from_def py_bound_def sorted_desc_def

lemma remove_doubles_exclusive:
  "set (map docno (translated_docs (remove_doubles st))) \<inter> set (map docno (original_docs st)) = {}"
  "set (map docno (expanded_docs (remove_doubles st))) \<inter> set (map docno (original_docs st)) = {}"
  by (auto simp: remove_doubles_def Let_def)

lemma final_ranked_list_length:
  assumes "0 \<le> topn"
  shows "length (final_ranked_list st topn) =
    min (nat topn) (length (original_docs st)) + min (nat topn) (length (translated_docs st))
      + min (nat topn) (length (expanded_docs st))
      + 2 * (length (original_docs st) - nat topn) + (length (expanded_docs st) - nat topn)"
  using assms
  by (simp add: final_ranked_list_def top_docs_nonneg mixed_remaining_docs_def py_from_nonneg
      min.commute)

text \<open>
  C3. The fused list for original \<open>[A, B]\<close>, translated \<open>[C]\<close>, no expanded documents,
  \<open>topn = 1\<close> and \<open>nmax = 10\<close>: the remainder of the original list enters twice, so four
  entries come out of three candidates.
\<close>

theorem fusion_cardinality_scenario:
  "map docno (get_ranked_list scenario_A 1 10) = [''A'', ''C'', ''B'', ''B'']"
  by (simp add: fusion_defs scenario_A_def)

text \<open>
  C6, as the code has it. No call is rejected: for all integers \<open>topn\<close> and \<open>nmax\<close>
  (zero and negative values included, and \<open>nmax < topn\<close>) the result is the fused list cut by
  the slice \<open>[:nmax]\<close> (nothing for \<open>nmax = 0\<close>, all but the last \<open>-nmax\<close> entries for a
  negative \<open>nmax\<close>, the first \<open>nmax\<close> entries otherwise), and its ranks are \<open>1, 2, ...\<close> in
  order.
\<close>

theorem get_ranked_list_no_validation:
  "length (get_ranked_list st topn nmax) =
     (if nmax < 0 then length (final_ranked_list st topn) - nat (- nmax)
      else min (nat nmax) (length (final_ranked_list st topn))) \<and>
   map rank (get_ranked_list st topn nmax)
     = map int [1..<Suc (length (get_ranked_list st topn nmax))]"
proof
  show "length (get_ranked_list st topn nmax) =
     (if nmax < 0 then length (final_ranked_list st topn) - nat (- nmax)
      else min (nat nmax) (length (final_ranked_list st topn)))"
    by (simp add: length_get_ranked_list py_bound_def min.commute) arith
  show "map rank (get_ranked_list st topn nmax)
     = map int [1..<Suc (length (get_ranked_list st topn nmax))]"
    by (rule get_ranked_list_ranks)
qed

text \<open>
  C6 as stated fails: \<open>rank\<close> with \<open>nmax = -1\<close>, and with \<open>topn = 0\<close>, returns a ranked list.
\<close>

theorem configuration_not_rejected:
  "rank_docs [(''A'', 9 / 10), (''B'', 1 / 2)] [] [] 5 (- 1)
     = [\<lparr>docno = ''A'', score = 9 / 10, from_query = ''original'', rank = 1\<rparr>] \<and>
   rank_docs [(''A'', 9 / 10), (''B'', 1 / 2)] [] [] 0 1
     = [\<lparr>docno = ''A'', score = 9 / 10, from_query = ''original'', rank = 1\<rparr>]"
  by (simp add: rank_docs_def remove_doubles_def normalize_def normalize_list_id fusion_defs)


section \<open>Indexing and ranges\<close>

lemma py_index_nat: "i < length xs \<Longrightarrow> py_index xs (int i) = Inr (xs ! i)"
  by (simp add: py_index_def)

lemma py_index_neg:
  "0 < p \<Longrightarrow> p \<le> length xs \<Longrightarrow> py_index xs (- int p) = Inr (xs ! (length xs - p))"
  by (simp add: py_index_def Let_def nat_diff_distrib' del: of_nat_diff)

lemma py_list_index_first:
  "v \<in> set xs \<Longrightarrow>
   \<exists>p. py_list_index xs v = Inr p \<and> p < length xs \<and> xs ! p = v \<and> (\<forall>k<p. xs ! k \<noteq> v)"
proof (induction xs)
  case Nil
  then show ?case by simp
next
  case (Cons x xs)
  show ?case
  proof (cases "x = v")
    case True
    then show ?thesis by simp
  next
    case False
    with Cons.prems have "v \<in> set xs" by simp
    then obtain p where p: "py_list_index xs v = Inr p" "p < length xs" "xs ! p = v"
      "\<forall>k<p. xs ! k \<noteq> v"
      using Cons.IH by blast
    have "\<forall>k<Suc p. (x # xs) ! k \<noteq> v"
    proof (intro allI impI)
      fix k assume "k < Suc p"
      then show "(x # xs) ! k \<noteq> v"
        using False p(4) by (cases k) auto
    qed
    with False p show ?thesis by simp
  qed
qed

lemma first_occurrence_unique:
  assumes "p < length xs" "xs ! p = v" "\<forall>k<p. xs ! k \<noteq> v"
    and "q < length xs" "xs ! q = v" "\<forall>k<q. xs ! k \<noteq> v"
  shows "p = (q::nat)"
proof (rule ccontr)
  assume "p \<noteq> q"
  then consider "p < q" | "q < p" by arith
  then show False
  proof cases
    case 1
    with assms(6) have "xs ! p \<noteq> v" by blast
    with assms(2) show False by blast
  next
    case 2
    with assms(3) have "xs ! q \<noteq> v" by blast
    with assms(5) show False by blast
  qed
qed

lemma py_range_nat:
  "py_range (int a + 1) (int n - 1) = map int [Suc a..<n - 1]"
proof -
  have m: "nat (int n - 1 - (int a + 1)) = n - 1 - Suc a" by simp
  have "map (\<lambda>k. int a + 1 + int k) [0..<n - 1 - Suc a]
      = map int (map (\<lambda>k. k + Suc a) [0..<n - 1 - Suc a])"
    by (simp add: o_def)
  also have "map (\<lambda>k. k + Suc a) [0..<n - 1 - Suc a] = [Suc a..<n - 1 - Suc a + Suc a]"
    by (rule map_add_upt)
  also have "[Suc a..<n - 1 - Suc a + Suc a] = [Suc a..<n - 1]"
  proof (cases "Suc a \<le> n - 1")
    case True
    then have "n - 1 - Suc a + Suc a = n - 1" by arith
    then show ?thesis by (simp only:)
  next
    case False
    then have "n - 1 - Suc a + Suc a \<le> Suc a" "n - 1 \<le> Suc a" by arith+
    then show ?thesis by (simp only: upt_conv_Nil)
  qed
  finally have "map (\<lambda>k. int a + 1 + int k) [0..<n - 1 - Suc a] = map int [Suc a..<n - 1]" .
  then show ?thesis unfolding py_range_def m .
qed

section \<open>Rerank: the update loop and the rank assignment\<close>


lemma selected_doc_rank_found:
  assumes "sel < length rl" and "docno (h (rl ! sel)) = fb_docno fb"
    and "\<forall>j<sel. docno (h (rl ! j)) \<noteq> fb_docno fb"
  shows "selected_doc_rank h rl fb = Some (rank (h (rl ! sel)))"
proof -
  have "find (\<lambda>doc. docno (h doc) = fb_docno fb) rl = Some (rl ! sel)"
    unfolding find_Some_iff using assms by blast
  then show ?thesis by (simp add: selected_doc_rank_def)
qed

lemma selected_doc_rank_absent:
  "\<forall>r\<in>set rl. docno (h r) \<noteq> fb_docno fb \<Longrightarrow> selected_doc_rank h rl fb = None"
  by (simp add: selected_doc_rank_def find_None_iff)

lemma rerank_step_frame:
  assumes "rerank_step h rl fb sim sel (int i) = Inr h'" and "i < length rl"
  shows "\<exists>s. h' = h(rl ! i := (h (rl ! i))\<lparr>score := s\<rparr>)"
proof (cases "new_score fb sim sel (int i) (score (h (rl ! i)))")
  case (Inl e)
  with assms show ?thesis
    by (simp add: rerank_step_def try_bind_def py_index_nat)
next
  case (Inr r)
  show ?thesis
  proof (cases r)
    case None
    with Inr assms have "h' = h"
      by (simp add: rerank_step_def try_bind_def py_index_nat)
    then have "h' = h(rl ! i := (h (rl ! i))\<lparr>score := score (h (rl ! i))\<rparr>)"
      by simp
    then show ?thesis by blast
  next
    case (Some s)
    with Inr assms have "h' = h(rl ! i := (h (rl ! i))\<lparr>score := s\<rparr>)"
      by (simp add: rerank_step_def try_bind_def py_index_nat)
    then show ?thesis by blast
  qed
qed

lemma rerank_loop_frame:
  assumes "rerank_loop h rl fb sim sel (map int js) = (h1, e)" and "\<forall>i\<in>set js. i < length rl"
  shows "(\<forall>r. r \<notin> (\<lambda>i. rl ! i) ` set js \<longrightarrow> h1 r = h r) \<and> (\<forall>r. \<exists>s. h1 r = (h r)\<lparr>score := s\<rparr>)"
  using assms
proof (induction js arbitrary: h)
  case Nil
  then have "h1 = h" by simp
  moreover have "\<And>r. h r = (h r)\<lparr>score := score (h r)\<rparr>" by simp
  ultimately show ?case by blast
next
  case (Cons i js)
  show ?case
  proof (cases "rerank_step h rl fb sim sel (int i)")
    case (Inl x)
    with Cons.prems have "h1 = h" by simp
    moreover have "\<And>r. h r = (h r)\<lparr>score := score (h r)\<rparr>" by simp
    ultimately show ?thesis by blast
  next
    case (Inr h')
    with Cons.prems have loop: "rerank_loop h' rl fb sim sel (map int js) = (h1, e)"
      by simp
    from Cons.prems have "i < length rl" by simp
    with Inr obtain s where h': "h' = h(rl ! i := (h (rl ! i))\<lparr>score := s\<rparr>)"
      using rerank_step_frame by blast
    from Cons.prems have "\<forall>i\<in>set js. i < length rl" by simp
    with loop have IH: "\<forall>r. r \<notin> (\<lambda>i. rl ! i) ` set js \<longrightarrow> h1 r = h' r"
      "\<forall>r. \<exists>s. h1 r = (h' r)\<lparr>score := s\<rparr>"
      using Cons.IH by blast+
    have "h1 r = h r" if "r \<notin> (\<lambda>i. rl ! i) ` set (i # js)" for r
    proof -
      from that have "r \<noteq> rl ! i" "r \<notin> (\<lambda>i. rl ! i) ` set js" by auto
      then show ?thesis using IH(1) h' by simp
    qed
    moreover have "\<exists>s. h1 r = (h r)\<lparr>score := s\<rparr>" for r
    proof -
      from IH(2) obtain s' where "h1 r = (h' r)\<lparr>score := s'\<rparr>" by blast
      then have "h1 r = (h r)\<lparr>score := s'\<rparr>"
        unfolding h' by (cases "r = rl ! i") simp_all
      then show ?thesis by blast
    qed
    ultimately show ?thesis by blast
  qed
qed

lemma rerank_loop_scores:
  assumes step: "\<And>h i. i \<in> set js \<Longrightarrow> rerank_step h rl fb sim sel (int i)
        = Inr (h(rl ! i := (h (rl ! i))\<lparr>score := score (h (rl ! i)) * w i\<rparr>))"
    and "distinct (map (\<lambda>i. rl ! i) js)" and "\<forall>i\<in>set js. i < length rl"
  shows "\<exists>h1. rerank_loop h rl fb sim sel (map int js) = (h1, None) \<and>
    (\<forall>i\<in>set js. score (h1 (rl ! i)) = score (h (rl ! i)) * w i)"
  using assms
proof (induction js arbitrary: h)
  case Nil
  then show ?case by simp
next
  case (Cons i js)
  let ?h' = "h(rl ! i := (h (rl ! i))\<lparr>score := score (h (rl ! i)) * w i\<rparr>)"
  have st: "rerank_step h rl fb sim sel (int i) = Inr ?h'"
    by (rule Cons.prems(1)) simp
  have "\<exists>h1. rerank_loop ?h' rl fb sim sel (map int js) = (h1, None) \<and>
    (\<forall>j\<in>set js. score (h1 (rl ! j)) = score (?h' (rl ! j)) * w j)"
  proof (rule Cons.IH)
    show "\<And>h j. j \<in> set js \<Longrightarrow> rerank_step h rl fb sim sel (int j)
        = Inr (h(rl ! j := (h (rl ! j))\<lparr>score := score (h (rl ! j)) * w j\<rparr>))"
      by (rule Cons.prems(1)) simp
    show "distinct (map (\<lambda>i. rl ! i) js)" using Cons.prems(2) by simp
    show "\<forall>i\<in>set js. i < length rl" using Cons.prems(3) by simp
  qed
  then obtain h1 where h1: "rerank_loop ?h' rl fb sim sel (map int js) = (h1, None)"
    "\<forall>j\<in>set js. score (h1 (rl ! j)) = score (?h' (rl ! j)) * w j"
    by blast
  from Cons.prems(2) have notin: "rl ! i \<notin> (\<lambda>i. rl ! i) ` set js" by simp
  from Cons.prems(3) have "\<forall>i\<in>set js. i < length rl" by simp
  with h1(1) have "h1 (rl ! i) = ?h' (rl ! i)"
    using rerank_loop_frame notin by blast
  then have a: "score (h1 (rl ! i)) = score (h (rl ! i)) * w i"
    by simp
  have b: "score (h1 (rl ! j)) = score (h (rl ! j)) * w j" if "j \<in> set js" for j
  proof -
    from that have "rl ! j \<in> (\<lambda>i. rl ! i) ` set js" by (rule imageI)
    with notin have "rl ! j \<noteq> rl ! i" by metis
    with h1(2) that show ?thesis by simp
  qed
  from st h1(1) have "rerank_loop h rl fb sim sel (map int (i # js)) = (h1, None)"
    by simp
  with a b show ?case by auto
qed


lemma assign_ranks_fields: "\<exists>k. assign_ranks h ps r = (h r)\<lparr>rank := k\<rparr>"
proof (induction h ps rule: assign_ranks.induct)
  case (1 h)
  have "h r = (h r)\<lparr>rank := rank (h r)\<rparr>" by simp
  then show ?case by (metis assign_ranks.simps(1))
next
  case (2 h k doc rest)
  then obtain k' where "assign_ranks (h(doc := (h doc)\<lparr>rank := k\<rparr>)) rest r
      = ((h(doc := (h doc)\<lparr>rank := k\<rparr>)) r)\<lparr>rank := k'\<rparr>"
    by blast
  then have "assign_ranks h ((k, doc) # rest) r = (h r)\<lparr>rank := k'\<rparr>"
    by (cases "r = doc") simp_all
  then show ?case by blast
qed



section \<open>Rerank: the new scores and the shape of the result\<close>

lemma tensor_item_nat:
  "sel < length sim \<Longrightarrow> i < length (sim ! sel) \<Longrightarrow> tensor_item sim (int sel) (int i) = Inr (sim ! sel ! i)"
  by (simp add: tensor_item_def try_bind_def py_index_nat)

lemma inverse_sim_value_mirror:
  assumes "sel < length sim" and "i < length (sim ! sel)"
    and "p < length (sim ! sel)" and "sorted_desc (\<lambda>x. x) (sim ! sel) ! p = sim ! sel ! i"
    and "\<forall>k<p. sorted_desc (\<lambda>x. x) (sim ! sel) ! k \<noteq> sim ! sel ! i"
  shows "inverse_sim_value sim (int sel) (int i)
    = Inr (sorted_desc (\<lambda>x. x) (sim ! sel) ! (if p = 0 then 0 else length (sim ! sel) - p))"
proof -
  define row where "row = sim ! sel"
  define ord where "ord = sorted_desc (\<lambda>x. x) row"
  have len: "length ord = length row" by (simp add: ord_def)
  have "row ! i \<in> set row" using assms(2) by (simp add: row_def)
  then have "row ! i \<in> set ord" by (simp add: ord_def)
  then have "\<exists>q. py_list_index ord (row ! i) = Inr q \<and> q < length ord \<and>
      ord ! q = row ! i \<and> (\<forall>k<q. ord ! k \<noteq> row ! i)"
    by (rule py_list_index_first)
  then obtain q where q: "py_list_index ord (row ! i) = Inr q" "q < length ord"
    "ord ! q = row ! i" "\<forall>k<q. ord ! k \<noteq> row ! i"
    by (elim exE conjE)
  have p: "p < length ord" "ord ! p = row ! i" "\<forall>k<p. ord ! k \<noteq> row ! i"
    using assms(3-5) by (simp_all only: len row_def [symmetric] ord_def [symmetric])
  have "q = p"
    using q(2) q(3) q(4) p by (rule first_occurrence_unique)
  with q(1) have idx: "py_list_index ord (row ! i) = Inr p" by simp
  have last: "py_index ord (- int p) = Inr (ord ! (if p = 0 then 0 else length row - p))"
  proof (cases "p = 0")
    case True
    from p(1) have "py_index ord (int 0) = Inr (ord ! 0)"
      unfolding True by (rule py_index_nat)
    with True show ?thesis by simp
  next
    case False
    then have "0 < p" by simp
    moreover from p(1) have "p \<le> length ord" by simp
    ultimately have "py_index ord (- int p) = Inr (ord ! (length ord - p))"
      by (rule py_index_neg)
    with False show ?thesis by (simp only: len if_False)
  qed
  have r1: "py_index sim (int sel) = Inr row"
    unfolding row_def using assms(1) by (rule py_index_nat)
  have r2: "py_index row (int i) = Inr (row ! i)"
    using assms(2) unfolding row_def by (rule py_index_nat)
  have "inverse_sim_value sim (int sel) (int i)
      = Inr (ord ! (if p = 0 then 0 else length row - p))"
    unfolding inverse_sim_value_def try_bind_def r1 sum.case r2 Let_def ord_def [symmetric] idx
    by (rule last)
  then show ?thesis by (simp only: ord_def row_def)
qed

lemma first_occurrence_exists:
  assumes "i < length row"
  shows "\<exists>p. p < length row \<and> sorted_desc (\<lambda>x. x) row ! p = row ! i
    \<and> (\<forall>k<p. sorted_desc (\<lambda>x. x) row ! k \<noteq> row ! i)"
proof -
  have "row ! i \<in> set (sorted_desc (\<lambda>x. x) row)" using assms by simp
  then have "\<exists>p. py_list_index (sorted_desc (\<lambda>x. x) row) (row ! i) = Inr p \<and>
      p < length (sorted_desc (\<lambda>x. x) row) \<and> sorted_desc (\<lambda>x. x) row ! p = row ! i \<and>
      (\<forall>k<p. sorted_desc (\<lambda>x. x) row ! k \<noteq> row ! i)"
    by (rule py_list_index_first)
  then obtain p where "p < length (sorted_desc (\<lambda>x. x) row)"
    "sorted_desc (\<lambda>x. x) row ! p = row ! i" "\<forall>k<p. sorted_desc (\<lambda>x. x) row ! k \<noteq> row ! i"
    by (elim exE conjE)
  then show ?thesis by (intro exI [of _ p]) simp
qed

lemma rerank_step_positive:
  assumes "fb_feedback fb = ''+''" and "sel < length sim" and "i < length (sim ! sel)"
    and "i < length rl"
  shows "rerank_step h rl fb sim (int sel) (int i)
    = Inr (h(rl ! i := (h (rl ! i))\<lparr>score := score (h (rl ! i)) * (sim ! sel ! i)\<rparr>))"
  using assms
  by (simp add: rerank_step_def new_score_def try_bind_def py_index_nat tensor_item_nat)

lemma rerank_step_negative:
  assumes "fb_feedback fb = ''-''" and "sel < length sim" and "i < length (sim ! sel)"
    and "i < length rl"
    and "inverse_sim_value sim (int sel) (int i) = Inr v"
  shows "rerank_step h rl fb sim (int sel) (int i)
    = Inr (h(rl ! i := (h (rl ! i))\<lparr>score := score (h (rl ! i)) * v\<rparr>))"
  using assms
  by (simp add: rerank_step_def new_score_def try_bind_def py_index_nat tensor_item_nat)

lemma rerank_found:
  assumes "sel < length rl" and "docno (h (rl ! sel)) = fb_docno fb"
    and "\<forall>j<sel. docno (h (rl ! j)) \<noteq> fb_docno fb" and "rank (h (rl ! sel)) = int sel + 1"
  shows "rerank h rl fb sim =
    (case rerank_loop h rl fb sim (int sel) (map int [Suc sel..<length rl - 1]) of
       (h1, Some e) \<Rightarrow> (h1, Inl (RuntimeError ''Failed to get reranked list''))
     | (h1, None) \<Rightarrow>
         (assign_ranks h1
            (py_enumerate (sorted_desc (\<lambda>doc. score (h1 doc)) (drop (Suc sel) rl)) (int sel + 2)),
          Inr (take (Suc sel) rl @ sorted_desc (\<lambda>doc. score (h1 doc)) (drop (Suc sel) rl))))"
proof -
  have sel: "selected_doc_rank h rl fb = Some (int sel + 1)"
    using selected_doc_rank_found [OF assms(1-3)] assms(4) by simp
  have n: "nat (int sel + 1) = Suc sel" by simp
  have fr: "py_from xs (int sel + 1) = drop (Suc sel) xs" for xs :: "ref list"
    by (simp add: py_from_nonneg n)
  have up: "py_upto rl (int sel + 1) = take (Suc sel) rl"
    by (simp add: py_upto_nonneg n)
  have dr: "drop (Suc sel) (take (Suc sel) rl @ ys) = ys" for ys
    using assms(1) by simp
  show ?thesis
    unfolding rerank_def sel option.case Let_def
    by (simp only: add_diff_cancel_right' py_range_nat fr up dr add.assoc one_add_one)
qed


lemma rerank_absent_noop:
  "\<forall>r\<in>set rl. docno (h r) \<noteq> fb_docno fb \<Longrightarrow> rerank h rl fb sim = (h, Inr rl)"
  by (simp add: rerank_def selected_doc_rank_absent)

section \<open>Rerank: the scenarios, the prefix and the entries written\<close>

lemmas scenario_defs = scenario_heap_def scenario_list_def scenario_sim_def positive_A_def
  negative_A_def

lemmas rerank_defs = rerank_def selected_doc_rank_def rerank_step_def new_score_def
  inverse_sim_value_def tensor_item_def try_bind_def py_index_def py_from_def py_upto_def
  py_bound_def sorted_desc_def Let_def

lemma py_range_1_2: "py_range 1 2 = [1]"
  by (subst py_range_rec, simp, subst py_range_rec, simp)

lemma scenario_positive:
  "snd (rerank scenario_heap scenario_list positive_A scenario_sim) = Inr [0, 2, 1] \<and>
   fst (rerank scenario_heap scenario_list positive_A scenario_sim) 0
     = \<lparr>docno = ''A'', score = 1, from_query = ''original'', rank = 1\<rparr> \<and>
   fst (rerank scenario_heap scenario_list positive_A scenario_sim) 1
     = \<lparr>docno = ''B'', score = 3 / 10, from_query = ''original'', rank = 3\<rparr> \<and>
   fst (rerank scenario_heap scenario_list positive_A scenario_sim) 2
     = \<lparr>docno = ''C'', score = 4 / 10, from_query = ''original'', rank = 2\<rparr>"
  by (simp add: scenario_defs rerank_defs py_range_1_2)

lemma scenario_negative:
  "snd (rerank scenario_heap scenario_list negative_A scenario_sim) = Inr [0, 1, 2] \<and>
   fst (rerank scenario_heap scenario_list negative_A scenario_sim) 0
     = \<lparr>docno = ''A'', score = 1, from_query = ''original'', rank = 1\<rparr> \<and>
   fst (rerank scenario_heap scenario_list negative_A scenario_sim) 1
     = \<lparr>docno = ''B'', score = 27 / 50, from_query = ''original'', rank = 2\<rparr> \<and>
   fst (rerank scenario_heap scenario_list negative_A scenario_sim) 2
     = \<lparr>docno = ''C'', score = 4 / 10, from_query = ''original'', rank = 3\<rparr>"
  by (simp add: scenario_defs rerank_defs py_range_1_2)




lemma loop_indices_bounded: "\<forall>i\<in>set [Suc sel..<length rl - 1]. i < length rl"
  by auto

lemma rerank_success_shape:
  assumes "sel < length rl" and "docno (h (rl ! sel)) = fb_docno fb"
    and "\<forall>j<sel. docno (h (rl ! j)) \<noteq> fb_docno fb" and "rank (h (rl ! sel)) = int sel + 1"
    and "rerank h rl fb sim = (h', Inr out)"
  shows "\<exists>h1. rerank_loop h rl fb sim (int sel) (map int [Suc sel..<length rl - 1]) = (h1, None) \<and>
    out = take (Suc sel) rl @ sorted_desc (\<lambda>doc. score (h1 doc)) (drop (Suc sel) rl) \<and>
    h' = assign_ranks h1
           (py_enumerate (sorted_desc (\<lambda>doc. score (h1 doc)) (drop (Suc sel) rl)) (int sel + 2))"
proof -
  obtain h1 e where loop:
    "rerank_loop h rl fb sim (int sel) (map int [Suc sel..<length rl - 1]) = (h1, e)"
    by (cases "rerank_loop h rl fb sim (int sel) (map int [Suc sel..<length rl - 1])")
  show ?thesis
  proof (cases e)
    case None
    with loop assms(5) show ?thesis
      unfolding rerank_found [OF assms(1-4)] by simp
  next
    case (Some x)
    with loop assms(5) show ?thesis
      unfolding rerank_found [OF assms(1-4)] by simp
  qed
qed





lemma scenario_negative_call:
  "rerank scenario_heap scenario_list negative_A scenario_sim
     = (fst (rerank scenario_heap scenario_list negative_A scenario_sim), Inr [0, 1, 2])"
  using scenario_negative by (simp add: prod_eq_iff)

lemma scenario_found:
  "distinct scenario_list" "0 < length scenario_list"
  "docno (scenario_heap (scenario_list ! 0)) = fb_docno positive_A"
  "docno (scenario_heap (scenario_list ! 0)) = fb_docno negative_A"
  "\<forall>j<0. docno (scenario_heap (scenario_list ! j)) \<noteq> fb_docno positive_A"
  "\<forall>j<0. docno (scenario_heap (scenario_list ! j)) \<noteq> fb_docno negative_A"
  "rank (scenario_heap (scenario_list ! 0)) = int 0 + 1"
  by (simp_all add: scenario_defs)



lemmas revision_defs = revision_heap_def revision_list_def revision_sim_def positive_D_def
  negative_D_def positive_A_def

lemma py_range_4_3: "py_range 4 3 = []"
  by (simp add: py_range_def)

lemma py_range_1_3: "py_range 1 3 = [1, 2]"
  by (subst py_range_rec, simp, subst py_range_rec, simp, subst py_range_rec, simp)

lemma py_range_2_3: "py_range 2 3 = [2]"
  by (subst py_range_rec, simp, subst py_range_rec, simp)

lemma revision_first:
  "snd (rerank revision_heap revision_list positive_D revision_sim) = Inr [0, 1, 2, 3] \<and>
   map (fst (rerank revision_heap revision_list positive_D revision_sim)) [0, 1, 2, 3]
     = map revision_heap [0, 1, 2, 3]"
  by (simp add: revision_defs rerank_defs py_range_4_3)

lemma revision_first_call:
  "rerank revision_heap revision_list positive_D revision_sim = (revision_heap, Inr revision_list)"
  by (simp add: revision_defs rerank_defs py_range_4_3)

lemma revision_second:
  "snd (rerank revision_heap revision_list positive_A revision_sim) = Inr [0, 3, 1, 2] \<and>
   map (fst (rerank revision_heap revision_list positive_A revision_sim)) [0, 1, 2, 3]
     = [\<lparr>docno = ''A'', score = 1, from_query = ''original'', rank = 1\<rparr>,
        \<lparr>docno = ''B'', score = 1 / 20, from_query = ''original'', rank = 3\<rparr>,
        \<lparr>docno = ''C'', score = 1 / 40, from_query = ''original'', rank = 4\<rparr>,
        \<lparr>docno = ''D'', score = 1 / 5, from_query = ''original'', rank = 2\<rparr>]"
  by (simp add: revision_defs rerank_defs py_range_1_3)

lemma revision_second_heap:
  "fst (rerank revision_heap revision_list positive_A revision_sim)
     = revision_heap
         (1 := \<lparr>docno = ''B'', score = 1 / 20, from_query = ''original'', rank = 3\<rparr>,
          2 := \<lparr>docno = ''C'', score = 1 / 40, from_query = ''original'', rank = 4\<rparr>,
          3 := \<lparr>docno = ''D'', score = 1 / 5, from_query = ''original'', rank = 2\<rparr>)"
  by (rule ext) (simp add: revision_defs rerank_defs py_range_1_3)

lemma revision_third:
  "snd (rerank (fst (rerank revision_heap revision_list positive_A revision_sim))
          revision_list negative_D revision_sim) = Inr [0, 1, 3, 2] \<and>
   map (fst (rerank (fst (rerank revision_heap revision_list positive_A revision_sim))
          revision_list negative_D revision_sim)) [0, 1, 2, 3]
     = [\<lparr>docno = ''A'', score = 1, from_query = ''original'', rank = 1\<rparr>,
        \<lparr>docno = ''B'', score = 1 / 20, from_query = ''original'', rank = 3\<rparr>,
        \<lparr>docno = ''C'', score = 1 / 400, from_query = ''original'', rank = 4\<rparr>,
        \<lparr>docno = ''D'', score = 1 / 5, from_query = ''original'', rank = 3\<rparr>]"
  unfolding revision_second_heap
  by (simp add: revision_defs rerank_defs py_range_2_3)

lemma revision_session:
  "gui_feedback (\<lambda>h rl fb. rerank h rl fb revision_sim)
     (fst (gui_feedback (\<lambda>h rl fb. rerank h rl fb revision_sim)
        (fst (gui_feedback (\<lambda>h rl fb. rerank h rl fb revision_sim)
           \<lparr>backend = revision_heap,
              search_history = [\<lparr>query = ''flu'', results = revision_list, feedback = None\<rparr>]\<rparr>
           ''D'' (Some 2)))
        ''A'' (Some 2)))
     ''D'' (Some 1)
   = (\<lparr>backend = fst (rerank (fst (rerank revision_heap revision_list positive_A revision_sim))
                         revision_list negative_D revision_sim),
       search_history =
         [\<lparr>query = ''flu'', results = revision_list, feedback = None\<rparr>,
          \<lparr>query = ''flu'', results = [0, 1, 3, 2], feedback = Some negative_D\<rparr>]\<rparr>, None)"
proof -
  define h2 where "h2 = fst (rerank revision_heap revision_list positive_A revision_sim)"
  define h3 where "h3 = fst (rerank h2 revision_list negative_D revision_sim)"
  let ?p = "\<lambda>h rl fb. rerank h rl fb revision_sim"
  let ?s0 = "\<lparr>query = ''flu'', results = revision_list, feedback = None\<rparr>"
  let ?s1 = "\<lparr>query = ''flu'', results = revision_list, feedback = Some positive_D\<rparr>"
  let ?s2 = "\<lparr>query = ''flu'', results = [0, 3, 1, 2], feedback = Some positive_A\<rparr>"
  have c2: "rerank revision_heap revision_list positive_A revision_sim = (h2, Inr [0, 3, 1, 2])"
    unfolding h2_def using revision_second by (intro prod_eqI) simp_all
  have c3: "rerank h2 revision_list negative_D revision_sim = (h3, Inr [0, 1, 3, 2])"
    unfolding h3_def h2_def using revision_third by (intro prod_eqI) simp_all
  have fbs: "\<lparr>fb_docno = ''D'', fb_feedback = ''+''\<rparr> = positive_D"
    "\<lparr>fb_docno = ''A'', fb_feedback = ''+''\<rparr> = positive_A"
    "\<lparr>fb_docno = ''D'', fb_feedback = ''-''\<rparr> = negative_D"
    by (simp_all add: positive_D_def positive_A_def negative_D_def)
  have t: "\<not> targets d ?s0" "targets d ?s1 \<longleftrightarrow> d = ''D''" "targets d ?s2 \<longleftrightarrow> d = ''A''" for d
    by (auto simp: targets_def positive_D_def positive_A_def)
  have 1: "gui_feedback ?p \<lparr>backend = revision_heap, search_history = [?s0]\<rparr> ''D'' (Some 2)
      = (\<lparr>backend = revision_heap, search_history = [?s0, ?s1]\<rparr>, None)"
    by (simp add: gui_feedback_def gui_rerank_def t fbs revision_first_call)
  have 2: "gui_feedback ?p \<lparr>backend = revision_heap, search_history = [?s0, ?s1]\<rparr> ''A'' (Some 2)
      = (\<lparr>backend = h2, search_history = [?s0, ?s1, ?s2]\<rparr>, None)"
    by (simp add: gui_feedback_def gui_rerank_def t fbs c2)
  have 3: "gui_feedback ?p \<lparr>backend = h2, search_history = [?s0, ?s1, ?s2]\<rparr> ''D'' (Some 1)
      = (\<lparr>backend = h3, search_history =
           [?s0, \<lparr>query = ''flu'', results = [0, 1, 3, 2], feedback = Some negative_D\<rparr>]\<rparr>, None)"
    by (simp add: gui_feedback_def gui_rerank_def t fbs c3)
  have "gui_feedback ?p (fst (gui_feedback ?p (fst (gui_feedback ?p
           \<lparr>backend = revision_heap, search_history = [?s0]\<rparr> ''D'' (Some 2))) ''A'' (Some 2)))
     ''D'' (Some 1)
      = (\<lparr>backend = h3, search_history =
           [?s0, \<lparr>query = ''flu'', results = [0, 1, 3, 2], feedback = Some negative_D\<rparr>]\<rparr>, None)"
    by (simp only: 1 2 3 fst_conv)
  then show ?thesis unfolding h3_def h2_def .
qed



section \<open>Rerank: the scores of the entries visited\<close>

lemma loop_refs_distinct:
  assumes "distinct rl"
  shows "distinct (map (\<lambda>i. rl ! i) [Suc sel..<length rl - 1])"
proof -
  have "inj_on (\<lambda>i. rl ! i) (set [Suc sel..<length rl - 1])"
  proof (rule inj_onI)
    fix i j
    assume "i \<in> set [Suc sel..<length rl - 1]" "j \<in> set [Suc sel..<length rl - 1]"
      and eq: "rl ! i = rl ! j"
    then have "i < length rl" "j < length rl" by auto
    with assms eq show "i = j" by (simp add: nth_eq_iff_index_eq)
  qed
  then show ?thesis by (simp add: distinct_map)
qed

lemma assign_ranks_score: "score (assign_ranks h ps r) = score (h r)"
proof -
  from assign_ranks_fields [of h ps r] obtain k where "assign_ranks h ps r = (h r)\<lparr>rank := k\<rparr>"
    by (elim exE)
  then show ?thesis by simp
qed

lemma rerank_scores:
  assumes "distinct rl"
    and "sel < length rl" and "docno (h (rl ! sel)) = fb_docno fb"
    and "\<forall>j<sel. docno (h (rl ! j)) \<noteq> fb_docno fb" and "rank (h (rl ! sel)) = int sel + 1"
    and step: "\<And>h i. i \<in> set [Suc sel..<length rl - 1] \<Longrightarrow> rerank_step h rl fb sim (int sel) (int i)
        = Inr (h(rl ! i := (h (rl ! i))\<lparr>score := score (h (rl ! i)) * w i\<rparr>))"
  shows "\<exists>h' out. rerank h rl fb sim = (h', Inr out) \<and>
    (\<forall>i. sel < i \<and> Suc i < length rl \<longrightarrow> score (h' (rl ! i)) = score (h (rl ! i)) * w i)"
proof -
  let ?js = "[Suc sel..<length rl - 1]"
  have "\<exists>h1. rerank_loop h rl fb sim (int sel) (map int ?js) = (h1, None) \<and>
    (\<forall>i\<in>set ?js. score (h1 (rl ! i)) = score (h (rl ! i)) * w i)"
    using step loop_refs_distinct [OF assms(1)] loop_indices_bounded
    by (rule rerank_loop_scores)
  then obtain h1 where loop: "rerank_loop h rl fb sim (int sel) (map int ?js) = (h1, None)"
    and sc: "\<forall>i\<in>set ?js. score (h1 (rl ! i)) = score (h (rl ! i)) * w i"
    by (elim exE conjE)
  let ?part = "sorted_desc (\<lambda>doc. score (h1 doc)) (drop (Suc sel) rl)"
  let ?h' = "assign_ranks h1 (py_enumerate ?part (int sel + 2))"
  have r: "rerank h rl fb sim = (?h', Inr (take (Suc sel) rl @ ?part))"
    unfolding rerank_found [OF assms(2-5)] loop by simp
  have "score (?h' (rl ! i)) = score (h (rl ! i)) * w i" if "sel < i \<and> Suc i < length rl" for i
  proof -
    from that have "i \<in> set ?js" by auto
    with sc have "score (h1 (rl ! i)) = score (h (rl ! i)) * w i" by (rule bspec)
    then show ?thesis by (simp only: assign_ranks_score)
  qed
  with r show ?thesis by blast
qed

lemma rerank_positive_scores:
  assumes "distinct rl"
    and "sel < length rl" and "docno (h (rl ! sel)) = fb_docno fb"
    and "\<forall>j<sel. docno (h (rl ! j)) \<noteq> fb_docno fb" and "rank (h (rl ! sel)) = int sel + 1"
    and "fb_feedback fb = ''+''"
    and "sel < length sim" and "length rl \<le> length (sim ! sel)"
  shows "\<exists>h' out. rerank h rl fb sim = (h', Inr out) \<and>
    (\<forall>i. sel < i \<and> Suc i < length rl \<longrightarrow>
       score (h' (rl ! i)) = score (h (rl ! i)) * (sim ! sel ! i))"
  using assms(1-5)
proof (rule rerank_scores)
  fix h i
  assume "i \<in> set [Suc sel..<length rl - 1]"
  then have "i < length rl" by auto
  with assms(8) have "i < length (sim ! sel)" by simp
  with assms(6,7) \<open>i < length rl\<close>
  show "rerank_step h rl fb sim (int sel) (int i)
      = Inr (h(rl ! i := (h (rl ! i))\<lparr>score := score (h (rl ! i)) * (sim ! sel ! i)\<rparr>))"
    by (intro rerank_step_positive)
qed

lemma rerank_last_entry_kept:
  assumes "distinct rl"
    and "sel < length rl" and "docno (h (rl ! sel)) = fb_docno fb"
    and "\<forall>j<sel. docno (h (rl ! j)) \<noteq> fb_docno fb" and "rank (h (rl ! sel)) = int sel + 1"
    and "rerank h rl fb sim = (h', Inr out)"
  shows "score (h' (last rl)) = score (h (last rl))"
proof -
  from rerank_success_shape [OF assms(2-6)] obtain h1 where
    loop: "rerank_loop h rl fb sim (int sel) (map int [Suc sel..<length rl - 1]) = (h1, None)"
    and h': "h' = assign_ranks h1
           (py_enumerate (sorted_desc (\<lambda>doc. score (h1 doc)) (drop (Suc sel) rl)) (int sel + 2))"
    by (elim exE conjE)
  from assms(2) have ne: "rl \<noteq> []" by auto
  then have l: "last rl = rl ! (length rl - 1)" by (rule last_conv_nth)
  have "last rl \<notin> (\<lambda>i. rl ! i) ` set [Suc sel..<length rl - 1]"
  proof
    assume "last rl \<in> (\<lambda>i. rl ! i) ` set [Suc sel..<length rl - 1]"
    then obtain i where i: "i \<in> set [Suc sel..<length rl - 1]" "last rl = rl ! i"
      by (elim imageE)
    then have "i < length rl - 1" by simp
    moreover from this assms(1) i(2) have "i = length rl - 1"
      unfolding l by (simp add: nth_eq_iff_index_eq)
    ultimately show False by simp
  qed
  with rerank_loop_frame [OF loop loop_indices_bounded] have "h1 (last rl) = h (last rl)"
    by (elim conjE allE [of _ "last rl"] impE)
  then show ?thesis by (simp add: h' assign_ranks_score)
qed

text \<open>
  C2. The positive scenario: \<open>ranked = [A, B, C]\<close> with scores \<open>[1.0, 0.6, 0.4]\<close>, feedback
  \<open>+\<close> on \<open>A\<close>, \<open>sim[0] = [1.0, 0.5, 0.9]\<close>. The loop runs over \<open>range(1, 2)\<close>: \<open>B\<close> is rescored
  to 0.3, the last entry \<open>C\<close> keeps 0.4 where the rule gives \<open>0.4 * 0.9 = 0.36\<close>; the order
  returned is \<open>[A, C, B]\<close>. (By \<open>rerank_last_entry_kept\<close> no call rescores the last entry.)
\<close>

theorem rerank_skips_last_entry:
  "snd (rerank scenario_heap scenario_list positive_A scenario_sim) = Inr [0, 2, 1] \<and>
   map (\<lambda>r. docno (scenario_heap r)) [0, 2, 1] = [''A'', ''C'', ''B''] \<and>
   score (fst (rerank scenario_heap scenario_list positive_A scenario_sim) 1) = 3 / 10 \<and>
   score (fst (rerank scenario_heap scenario_list positive_A scenario_sim) 2) = 4 / 10 \<and>
   score (scenario_heap 2) * (scenario_sim ! 0 ! 2) = 36 / 100"
  using scenario_positive by (simp add: scenario_heap_def scenario_sim_def)

text \<open>
  C1, as the code has it. Negative feedback, on a list of distinct entries whose first entry
  with the docno of the feedback stands at position \<open>sel\<close> with rank \<open>sel + 1\<close>, and with a
  matrix that has the row \<open>sel\<close> and a column for every entry. The call returns a list, and
  every entry the update loop visits (positions \<open>sel < i < len - 1\<close>) gets the score
  \<open>score * ordered[-p]\<close>, where \<open>ordered\<close> is the row sorted descending and \<open>p\<close> the first
  position of \<open>sim[sel][i]\<close> in it: \<open>ordered[0]\<close> for \<open>p = 0\<close>, \<open>ordered[len - p]\<close> otherwise. In
  the negative scenario \<open>B\<close> gets \<open>0.6 * 0.9 = 0.54\<close> and the order stays \<open>[A, B, C]\<close>.
\<close>

theorem rerank_negative_mirror:
  assumes "distinct rl"
    and "sel < length rl" and "docno (h (rl ! sel)) = fb_docno fb"
    and "\<forall>j<sel. docno (h (rl ! j)) \<noteq> fb_docno fb" and "rank (h (rl ! sel)) = int sel + 1"
    and "fb_feedback fb = ''-''"
    and "sel < length sim" and "length rl \<le> length (sim ! sel)"
  shows "(\<exists>h' out. rerank h rl fb sim = (h', Inr out) \<and>
    (\<forall>i p. sel < i \<and> Suc i < length rl \<and> p < length (sim ! sel) \<and>
        sorted_desc (\<lambda>x. x) (sim ! sel) ! p = sim ! sel ! i \<and>
        (\<forall>k<p. sorted_desc (\<lambda>x. x) (sim ! sel) ! k \<noteq> sim ! sel ! i) \<longrightarrow>
      score (h' (rl ! i)) = score (h (rl ! i))
        * sorted_desc (\<lambda>x. x) (sim ! sel) ! (if p = 0 then 0 else length (sim ! sel) - p))) \<and>
    snd (rerank scenario_heap scenario_list negative_A scenario_sim) = Inr [0, 1, 2] \<and>
    score (fst (rerank scenario_heap scenario_list negative_A scenario_sim) 1) = 54 / 100"
proof -
  define w where "w i = (case inverse_sim_value sim (int sel) (int i) of Inl e \<Rightarrow> 0 | Inr v \<Rightarrow> v)"
    for i
  have inv: "inverse_sim_value sim (int sel) (int i) = Inr (w i)" if "i < length rl" for i
  proof -
    from that assms(8) have i: "i < length (sim ! sel)" by simp
    from first_occurrence_exists [OF i] obtain p where "p < length (sim ! sel)"
      "sorted_desc (\<lambda>x. x) (sim ! sel) ! p = sim ! sel ! i"
      "\<forall>k<p. sorted_desc (\<lambda>x. x) (sim ! sel) ! k \<noteq> sim ! sel ! i"
      by (elim exE conjE)
    with assms(7) i have "inverse_sim_value sim (int sel) (int i)
      = Inr (sorted_desc (\<lambda>x. x) (sim ! sel) ! (if p = 0 then 0 else length (sim ! sel) - p))"
      by (rule inverse_sim_value_mirror)
    then show ?thesis by (simp add: w_def)
  qed
  have "\<exists>h' out. rerank h rl fb sim = (h', Inr out) \<and>
    (\<forall>i. sel < i \<and> Suc i < length rl \<longrightarrow> score (h' (rl ! i)) = score (h (rl ! i)) * w i)"
    using assms(1-5)
  proof (rule rerank_scores)
    fix h i
    assume "i \<in> set [Suc sel..<length rl - 1]"
    then have l: "i < length rl" by auto
    with assms(8) have "i < length (sim ! sel)" by simp
    with assms(6,7) show "rerank_step h rl fb sim (int sel) (int i)
        = Inr (h(rl ! i := (h (rl ! i))\<lparr>score := score (h (rl ! i)) * w i\<rparr>))"
      using l inv [OF l] by (intro rerank_step_negative)
  qed
  then obtain h' out where r: "rerank h rl fb sim = (h', Inr out)"
    and sc: "\<forall>i. sel < i \<and> Suc i < length rl \<longrightarrow> score (h' (rl ! i)) = score (h (rl ! i)) * w i"
    by (elim exE conjE)
  have "score (h' (rl ! i)) = score (h (rl ! i))
        * sorted_desc (\<lambda>x. x) (sim ! sel) ! (if p = 0 then 0 else length (sim ! sel) - p)"
    if "sel < i \<and> Suc i < length rl \<and> p < length (sim ! sel) \<and>
        sorted_desc (\<lambda>x. x) (sim ! sel) ! p = sim ! sel ! i \<and>
        (\<forall>k<p. sorted_desc (\<lambda>x. x) (sim ! sel) ! k \<noteq> sim ! sel ! i)" for i p
  proof -
    from that have l: "i < length rl" by simp
    with assms(8) have i: "i < length (sim ! sel)" by simp
    from that have p: "p < length (sim ! sel)"
      "sorted_desc (\<lambda>x. x) (sim ! sel) ! p = sim ! sel ! i"
      "\<forall>k<p. sorted_desc (\<lambda>x. x) (sim ! sel) ! k \<noteq> sim ! sel ! i"
      by simp_all
    from assms(7) i p have "inverse_sim_value sim (int sel) (int i)
      = Inr (sorted_desc (\<lambda>x. x) (sim ! sel) ! (if p = 0 then 0 else length (sim ! sel) - p))"
      by (rule inverse_sim_value_mirror)
    with inv [OF l] have "w i
      = sorted_desc (\<lambda>x. x) (sim ! sel) ! (if p = 0 then 0 else length (sim ! sel) - p)"
      by simp
    moreover from sc have "sel < i \<and> Suc i < length rl
        \<longrightarrow> score (h' (rl ! i)) = score (h (rl ! i)) * w i" by (rule spec)
    with that have "score (h' (rl ! i)) = score (h (rl ! i)) * w i" by simp
    ultimately show ?thesis by simp
  qed
  then have "\<forall>i p. sel < i \<and> Suc i < length rl \<and> p < length (sim ! sel) \<and>
        sorted_desc (\<lambda>x. x) (sim ! sel) ! p = sim ! sel ! i \<and>
        (\<forall>k<p. sorted_desc (\<lambda>x. x) (sim ! sel) ! k \<noteq> sim ! sel ! i) \<longrightarrow>
      score (h' (rl ! i)) = score (h (rl ! i))
        * sorted_desc (\<lambda>x. x) (sim ! sel) ! (if p = 0 then 0 else length (sim ! sel) - p)"
    by (intro allI impI)
  with r have "\<exists>h' out. rerank h rl fb sim = (h', Inr out) \<and>
    (\<forall>i p. sel < i \<and> Suc i < length rl \<and> p < length (sim ! sel) \<and>
        sorted_desc (\<lambda>x. x) (sim ! sel) ! p = sim ! sel ! i \<and>
        (\<forall>k<p. sorted_desc (\<lambda>x. x) (sim ! sel) ! k \<noteq> sim ! sel ! i) \<longrightarrow>
      score (h' (rl ! i)) = score (h (rl ! i))
        * sorted_desc (\<lambda>x. x) (sim ! sel) ! (if p = 0 then 0 else length (sim ! sel) - p))"
    by (intro exI conjI)
  moreover have "snd (rerank scenario_heap scenario_list negative_A scenario_sim) = Inr [0, 1, 2]"
    "score (fst (rerank scenario_heap scenario_list negative_A scenario_sim) 1) = 54 / 100"
    using scenario_negative by simp_all
  ultimately show ?thesis by (intro conjI)
qed

lemma scenario_ordered:
  "sorted_desc (\<lambda>x. x) (scenario_sim ! 0) = [1, 9 / 10, 1 / 2]"
  by (simp add: scenario_sim_def sorted_desc_def)

theorem rerank_negative_mirror_witness:
  "distinct scenario_list \<and> fb_feedback negative_A = ''-'' \<and> 0 < length scenario_sim \<and>
   length scenario_list \<le> length (scenario_sim ! 0) \<and>
   sorted_desc (\<lambda>x. x) (scenario_sim ! 0) = [1, 9 / 10, 1 / 2] \<and>
   (\<exists>h' out. rerank scenario_heap scenario_list negative_A scenario_sim = (h', Inr out) \<and>
      score (h' (scenario_list ! 1))
        = score (scenario_heap (scenario_list ! 1)) * [1, 9 / 10, 1 / 2] ! (3 - 2))"
proof -
  have fb: "fb_feedback negative_A = ''-''" by (simp add: negative_A_def)
  have sim: "0 < length scenario_sim" "length scenario_list \<le> length (scenario_sim ! 0)"
    by (simp_all add: scenario_sim_def scenario_list_def)
  from rerank_negative_mirror [OF scenario_found(1,2,4,6,7) fb sim]
  obtain h' out where r: "rerank scenario_heap scenario_list negative_A scenario_sim = (h', Inr out)"
    and sc: "\<forall>i p. 0 < i \<and> Suc i < length scenario_list \<and> p < length (scenario_sim ! 0) \<and>
        sorted_desc (\<lambda>x. x) (scenario_sim ! 0) ! p = scenario_sim ! 0 ! i \<and>
        (\<forall>k<p. sorted_desc (\<lambda>x. x) (scenario_sim ! 0) ! k \<noteq> scenario_sim ! 0 ! i) \<longrightarrow>
      score (h' (scenario_list ! i)) = score (scenario_heap (scenario_list ! i))
        * sorted_desc (\<lambda>x. x) (scenario_sim ! 0)
            ! (if p = 0 then 0 else length (scenario_sim ! 0) - p)"
    by (elim exE conjE)
  have pre: "0 < (1::nat) \<and> Suc 1 < length scenario_list \<and> 2 < length (scenario_sim ! 0) \<and>
        sorted_desc (\<lambda>x. x) (scenario_sim ! 0) ! 2 = scenario_sim ! 0 ! 1 \<and>
        (\<forall>k<2. sorted_desc (\<lambda>x. x) (scenario_sim ! 0) ! k \<noteq> scenario_sim ! 0 ! 1)"
    unfolding scenario_ordered
    by (simp add: scenario_sim_def scenario_list_def less_Suc_eq numeral_2_eq_2)
  from sc have "0 < (1::nat) \<and> Suc 1 < length scenario_list \<and> 2 < length (scenario_sim ! 0) \<and>
        sorted_desc (\<lambda>x. x) (scenario_sim ! 0) ! 2 = scenario_sim ! 0 ! 1 \<and>
        (\<forall>k<2. sorted_desc (\<lambda>x. x) (scenario_sim ! 0) ! k \<noteq> scenario_sim ! 0 ! 1) \<longrightarrow>
      score (h' (scenario_list ! 1)) = score (scenario_heap (scenario_list ! 1))
        * sorted_desc (\<lambda>x. x) (scenario_sim ! 0)
            ! (if (2::nat) = 0 then 0 else length (scenario_sim ! 0) - 2)"
    by (elim allE [of _ 1] allE [of _ 2])
  with pre have "score (h' (scenario_list ! 1)) = score (scenario_heap (scenario_list ! 1))
        * sorted_desc (\<lambda>x. x) (scenario_sim ! 0)
            ! (if (2::nat) = 0 then 0 else length (scenario_sim ! 0) - 2)"
    by (rule rev_mp)
  then have "score (h' (scenario_list ! 1))
      = score (scenario_heap (scenario_list ! 1)) * [1, 9 / 10, 1 / 2] ! (3 - 2)"
    unfolding scenario_ordered by (simp add: scenario_sim_def)
  with r have "\<exists>h' out. rerank scenario_heap scenario_list negative_A scenario_sim = (h', Inr out) \<and>
      score (h' (scenario_list ! 1))
        = score (scenario_heap (scenario_list ! 1)) * [1, 9 / 10, 1 / 2] ! (3 - 2)"
    by (intro exI conjI)
  with scenario_found(1) fb sim scenario_ordered show ?thesis by (intro conjI)
qed

text \<open>
  C1 as stated fails. In the negative scenario the row of \<open>A\<close> sorted descending is
  \<open>[1.0, 0.9, 0.5]\<close> and the similarity 0.5 of \<open>B\<close> stands at \<open>p = 2\<close>; the entry
  \<open>ordered[len - 1 - p]\<close> is 1.0, which would leave \<open>B\<close> at 0.6, but \<open>B\<close> ends at 0.54; and \<open>C\<close>,
  the last entry, is not rescored to 0.36.
\<close>

theorem negative_scenario_not_as_claimed:
  "sorted_desc (\<lambda>x. x) (scenario_sim ! 0) = [1, 9 / 10, 1 / 2] \<and>
   py_list_index [1, 9 / 10, 1 / 2] (scenario_sim ! 0 ! 1) = Inr 2 \<and>
   score (scenario_heap 1) * [1, 9 / 10, 1 / 2] ! (3 - 1 - 2) = 6 / 10 \<and>
   score (fst (rerank scenario_heap scenario_list negative_A scenario_sim) 1) = 54 / 100 \<and>
   score (fst (rerank scenario_heap scenario_list negative_A scenario_sim) 1) \<noteq> 6 / 10 \<and>
   score (fst (rerank scenario_heap scenario_list negative_A scenario_sim) 2) \<noteq> 36 / 100"
  using scenario_negative scenario_ordered
  by (simp add: scenario_sim_def scenario_heap_def)


section \<open>The similarity matrix requested by the pipeline\<close>

lemma similarity_docnos_order_blind:
  assumes "set (map (\<lambda>item. docno (h item)) rl) = set (map (\<lambda>item. docno (h item)) rl')"
  shows "similarity_docnos p h rl = similarity_docnos p h rl'"
  using assms by (simp add: similarity_docnos_def rerank_ids_def)

text \<open>
  C4. The list \<open>[A, C, B]\<close> that the positive scenario returns is reranked next. The rows of
  the matrix requested for it belong to \<open>A, B, C\<close>, the order of the corpus: row 1 is the row
  of \<open>B\<close>, position 1 of the list is \<open>C\<close>.
\<close>

theorem similarity_rows_follow_corpus:
  "map (\<lambda>item. docno (scenario_heap item)) [0, 2, 1] = [''A'', ''C'', ''B''] \<and>
   similarity_docnos scenario_pipeline scenario_heap [0, 2, 1] = Inr [''A'', ''B'', ''C'']"
  by (simp add: similarity_docnos_def cbert_documents_def evaluate_ids_def rerank_ids_def
      try_bind_def scenario_pipeline_def scenario_heap_def)

section \<open>Session history\<close>

lemma truncate_index_first:
  assumes "i < length hist" and "targets d (hist ! i)" and "\<forall>j<i. \<not> targets d (hist ! j)"
  shows "truncate_index d hist = Some i"
  using assms
proof (induction hist arbitrary: i)
  case Nil
  then show ?case by simp
next
  case (Cons val rest)
  show ?case
  proof (cases i)
    case 0
    with Cons.prems(2) show ?thesis by simp
  next
    case (Suc k)
    with Cons.prems(3) have nt: "\<not> targets d val" by auto
    from Suc Cons.prems have "k < length rest" "targets d (rest ! k)" by simp_all
    moreover have "\<forall>j<k. \<not> targets d (rest ! j)"
    proof (intro allI impI)
      fix j assume "j < k"
      then have "Suc j < i" using Suc by simp
      with Cons.prems(3) have "\<not> targets d ((val # rest) ! Suc j)" by (elim allE impE)
      then show "\<not> targets d (rest ! j)" by simp
    qed
    ultimately have "truncate_index d rest = Some k" by (rule Cons.IH)
    with nt Suc show ?thesis by simp
  qed
qed

lemma truncate_index_exists:
  "\<exists>val\<in>set hist. targets d val \<Longrightarrow> \<exists>i. truncate_index d hist = Some i"
  by (induction hist) auto

lemma truncate_index_none:
  "\<forall>val\<in>set hist. \<not> targets d val \<Longrightarrow> truncate_index d hist = None"
  by (induction hist) auto

text \<open>
  C9. Feedback revision. Let \<open>i\<close> be the position of the earliest state of the history whose
  feedback is on docno \<open>d\<close>. A new feedback on \<open>d\<close> cuts the history down to the states before
  \<open>i\<close>; if the toggle was only cleared, that is all. If a polarity was chosen and the rerank
  of the results of state \<open>i - 1\<close> (the last state left) succeeds, exactly one state is
  appended to the states kept: the query of state \<open>i - 1\<close>, the reranked list and the new
  feedback. In every case the history afterwards is the states before \<open>i\<close> followed by at
  most one state. A search with \<open>reset\<close>, a non-blank query and a successful ranking leaves
  the history with the one state of its result.
\<close>

theorem feedback_revision_truncates:
  assumes "i < length (search_history g)" and "targets d (search_history g ! i)"
    and "\<forall>j<i. \<not> targets d (search_history g ! j)"
  shows "(feedback_value \<noteq> Some 1 \<and> feedback_value \<noteq> Some 2 \<longrightarrow>
      gui_feedback p_rerank g d feedback_value
        = (g\<lparr>search_history := take i (search_history g)\<rparr>, None)) \<and>
    (\<forall>w reranked_list.
      (feedback_value = Some 1 \<or> feedback_value = Some 2) \<and> 0 < i \<and>
      p_rerank (backend g) (results (search_history g ! (i - 1)))
        \<lparr>fb_docno = d, fb_feedback = (if feedback_value = Some 1 then ''-'' else ''+'')\<rparr>
        = (w, Inr reranked_list) \<longrightarrow>
      gui_feedback p_rerank g d feedback_value
        = (g\<lparr>backend := w,
             search_history := take i (search_history g)
               @ [\<lparr>query = query (search_history g ! (i - 1)), results = reranked_list,
                   feedback = Some \<lparr>fb_docno = d,
                     fb_feedback = (if feedback_value = Some 1 then ''-'' else ''+'')\<rparr>\<rparr>]\<rparr>,
           None)) \<and>
    (\<exists>rest. search_history (fst (gui_feedback p_rerank g d feedback_value))
        = take i (search_history g) @ rest \<and> length rest \<le> 1) \<and>
    (\<forall>w1 w2 ranked_list.
      py_strip q \<noteq> [] \<and> indexer_load (backend g) = (w1, None) \<and>
      retrieve_and_rank w1 (py_strip q) = (w2, Inr ranked_list) \<longrightarrow>
      search_history (fst (search indexer_load retrieve_and_rank g q True))
        = [\<lparr>query = py_strip q, results = ranked_list, feedback = None\<rparr>])"
proof -
  let ?hist = "search_history g"
  let ?fb = "\<lparr>fb_docno = d, fb_feedback = (if feedback_value = Some 1 then ''-'' else ''+'')\<rparr>"
  let ?g1 = "g\<lparr>search_history := take i ?hist\<rparr>"
  have ti: "truncate_index d ?hist = Some i"
    using assms by (rule truncate_index_first)
  have 1: "gui_feedback p_rerank g d feedback_value = (?g1, None)"
    if "feedback_value \<noteq> Some 1 \<and> feedback_value \<noteq> Some 2"
    using that by (simp add: gui_feedback_def ti)
  have fr: "gui_feedback p_rerank g d feedback_value = gui_rerank p_rerank ?g1 ?fb"
    if "feedback_value = Some 1 \<or> feedback_value = Some 2"
    using that by (simp add: gui_feedback_def ti Let_def)
  have 2: "gui_feedback p_rerank g d feedback_value
        = (g\<lparr>backend := w, search_history := take i ?hist
               @ [\<lparr>query = query (?hist ! (i - 1)), results = reranked_list,
                   feedback = Some ?fb\<rparr>]\<rparr>, None)"
    if "(feedback_value = Some 1 \<or> feedback_value = Some 2) \<and> 0 < i \<and>
      p_rerank (backend g) (results (?hist ! (i - 1))) ?fb = (w, Inr reranked_list)"
    for w reranked_list
  proof -
    from that assms(1) have ne: "take i ?hist \<noteq> []" by auto
    from that assms(1) have li: "length (take i ?hist) = i" "i - 1 < i" by simp_all
    have "last (take i ?hist) = take i ?hist ! (length (take i ?hist) - 1)"
      using ne by (rule last_conv_nth)
    also have "\<dots> = take i ?hist ! (i - 1)" by (simp only: li)
    also have "\<dots> = ?hist ! (i - 1)" using li(2) by (rule nth_take)
    finally have "last (take i ?hist) = ?hist ! (i - 1)" .
    with that ne show ?thesis
      by (simp add: fr gui_rerank_def Let_def)
  qed
  have 3: "\<exists>rest. search_history (fst (gui_feedback p_rerank g d feedback_value))
        = take i ?hist @ rest \<and> length rest \<le> 1"
  proof (cases "feedback_value = Some 1 \<or> feedback_value = Some 2")
    case False
    then have "search_history (fst (gui_feedback p_rerank g d feedback_value))
        = take i ?hist @ []" by (simp add: 1)
    then show ?thesis by (intro exI [of _ "[]"]) simp
  next
    case True
    show ?thesis
    proof (cases "take i ?hist = []")
      case True
      with \<open>feedback_value = Some 1 \<or> feedback_value = Some 2\<close>
      have "search_history (fst (gui_feedback p_rerank g d feedback_value))
        = take i ?hist @ []" by (simp add: fr gui_rerank_def)
      then show ?thesis by (intro exI [of _ "[]"]) simp
    next
      case False
      obtain w r where pr: "p_rerank (backend g) (results (last (take i ?hist))) ?fb = (w, r)"
        by (cases "p_rerank (backend g) (results (last (take i ?hist))) ?fb")
      show ?thesis
      proof (cases r)
        case (Inl e)
        with True False pr have "search_history (fst (gui_feedback p_rerank g d feedback_value))
          = take i ?hist @ []" by (simp add: fr gui_rerank_def Let_def)
        then show ?thesis by (intro exI [of _ "[]"]) simp
      next
        case (Inr rr)
        with True False pr have "search_history (fst (gui_feedback p_rerank g d feedback_value))
          = take i ?hist @ [\<lparr>query = query (last (take i ?hist)), results = rr,
              feedback = Some ?fb\<rparr>]" by (simp add: fr gui_rerank_def Let_def)
        then show ?thesis by (intro exI [of _ "[\<lparr>query = query (last (take i ?hist)), results = rr,
              feedback = Some ?fb\<rparr>]"]) simp
      qed
    qed
  qed
  have 4: "search_history (fst (search indexer_load retrieve_and_rank g q True))
        = [\<lparr>query = py_strip q, results = ranked_list, feedback = None\<rparr>]"
    if "py_strip q \<noteq> [] \<and> indexer_load (backend g) = (w1, None) \<and>
      retrieve_and_rank w1 (py_strip q) = (w2, Inr ranked_list)" for w1 w2 ranked_list
    using that by (simp add: search_def gui_rank_def Let_def)
  show ?thesis
    using 1 2 3 4 by (intro conjI allI impI)
qed

theorem feedback_revision_truncates_witness:
  "1 < length scenario_history \<and> targets ''A'' (scenario_history ! 1) \<and>
   \<not> targets ''A'' (scenario_history ! 0) \<and>
   gui_feedback (\<lambda>h rl fb. rerank h rl fb scenario_sim)
     \<lparr>backend = scenario_heap, search_history = scenario_history\<rparr> ''A'' (Some 1)
     = (\<lparr>backend = fst (rerank scenario_heap scenario_list negative_A scenario_sim),
         search_history =
           [\<lparr>query = ''flu'', results = [0, 1, 2], feedback = None\<rparr>,
            \<lparr>query = ''flu'', results = [0, 1, 2], feedback = Some negative_A\<rparr>]\<rparr>, None)"
proof -
  let ?g = "\<lparr>backend = scenario_heap, search_history = scenario_history\<rparr>"
  let ?p = "\<lambda>h rl fb. rerank h rl fb scenario_sim"
  have a: "1 < length (search_history ?g)" "targets ''A'' (search_history ?g ! 1)"
    "\<forall>j<1. \<not> targets ''A'' (search_history ?g ! j)"
    by (simp_all add: scenario_history_def targets_def positive_A_def)
  have fb: "\<lparr>fb_docno = ''A'', fb_feedback = (if Some (1::int) = Some 1 then ''-'' else ''+'')\<rparr>
      = negative_A"
    by (simp add: negative_A_def)
  have call: "(Some (1::int) = Some 1 \<or> Some (1::int) = Some 2) \<and> 0 < (1::nat) \<and>
      ?p (backend ?g) (results (search_history ?g ! (1 - 1)))
        \<lparr>fb_docno = ''A'', fb_feedback = (if Some (1::int) = Some 1 then ''-'' else ''+'')\<rparr>
      = (fst (rerank scenario_heap scenario_list negative_A scenario_sim), Inr [0, 1, 2])"
    unfolding fb using scenario_negative_call
    by (simp add: scenario_history_def scenario_list_def)
  note feedback_revision_truncates [OF a, of "Some 1" ?p, THEN conjunct2, THEN conjunct1,
      THEN spec, THEN spec, THEN mp, OF call]
  then have "gui_feedback ?p ?g ''A'' (Some 1)
     = (\<lparr>backend = fst (rerank scenario_heap scenario_list negative_A scenario_sim),
         search_history =
           [\<lparr>query = ''flu'', results = [0, 1, 2], feedback = None\<rparr>,
            \<lparr>query = ''flu'', results = [0, 1, 2], feedback = Some negative_A\<rparr>]\<rparr>, None)"
    unfolding fb by (simp add: scenario_history_def)
  moreover from a have "1 < length scenario_history" "targets ''A'' (scenario_history ! 1)"
    "\<not> targets ''A'' (scenario_history ! 0)" by simp_all
  ultimately show ?thesis by (intro conjI)
qed

end
